theory Spec2Isabelle
  imports Main "HOL-Library.Word"
begin

unbundle bit_operations_syntax

section \<open>Platform primitives used by \<open>src/lib/supabase/queries.ts\<close>\<close>

text \<open>
  The helpers at the top of \<open>queries.ts\<close> call four primitives of the JavaScript
  platform: \<open>String.fromCharCode\<close>, \<open>btoa\<close>, \<open>TextEncoder.encode\<close> and
  \<open>crypto.subtle.digest("SHA-256", _)\<close>. They are written out here after their
  standards (RFC 4648 section 4, the WHATWG Encoding standard, FIPS 180-4), so that the
  helpers can be stated over bytes and evaluated.

  A byte is an \<open>8 word\<close>. The strings handed to \<open>btoa\<close> hold one code unit below 256 per
  byte, which is exactly what a \<open>char\<close> of HOL is, so they are \<open>string\<close>s. A password
  is an arbitrary JavaScript string, a sequence of 16-bit code units: \<open>16 word list\<close>.
\<close>

type_synonym byte = "8 word"
type_synonym jsstring = "16 word list"

definition fromCharCode :: "byte list \<Rightarrow> string" where
  "fromCharCode bs = map (\<lambda>b. char_of (unat b)) bs"

definition b64_alphabet :: string where
  "b64_alphabet = ''ABCDEFGHIJKLMNOPQRSTUVWXYZabcdefghijklmnopqrstuvwxyz0123456789+/''"

definition b64_digit :: "nat \<Rightarrow> char" where
  "b64_digit n = b64_alphabet ! n"

text \<open>
  \<open>btoa\<close>: three input characters give four digits; a last group of one or two
  characters is padded with \<open>=\<close>. (\<open>btoa\<close> raises on a code unit above 255; a
  \<open>char\<close> cannot hold one.)
\<close>

fun btoa :: "string \<Rightarrow> string" where
  "btoa [] = []"
| "btoa [a] =
     (let x = (of_char a :: nat) in
      [b64_digit (x div 4), b64_digit ((x mod 4) * 16), CHR ''='', CHR ''=''])"
| "btoa [a, b] =
     (let x = (of_char a :: nat); y = (of_char b :: nat) in
      [b64_digit (x div 4), b64_digit ((x mod 4) * 16 + y div 16),
       b64_digit ((y mod 16) * 4), CHR ''=''])"
| "btoa (a # b # c # rest) =
     (let x = (of_char a :: nat); y = (of_char b :: nat); z = (of_char c :: nat) in
      [b64_digit (x div 4), b64_digit ((x mod 4) * 16 + y div 16),
       b64_digit ((y mod 16) * 4 + z div 64), b64_digit (z mod 64)] @ btoa rest)"

text \<open>\<open>s.replace(/c/g, d)\<close> for a one-character pattern, and \<open>s.replace(/c/g, "")\<close>.\<close>

definition replace_all :: "char \<Rightarrow> char \<Rightarrow> string \<Rightarrow> string" where
  "replace_all c d s = map (\<lambda>x. if x = c then d else x) s"

definition remove_all :: "char \<Rightarrow> string \<Rightarrow> string" where
  "remove_all c s = filter (\<lambda>x. x \<noteq> c) s"

subsection \<open>\<open>generateShareToken\<close> (queries.ts, lines 7-15)\<close>

text \<open>
  \<open>crypto.getRandomValues(array)\<close> overwrites every element of the array; the random
  source is the parameter \<open>rng\<close>, giving the byte written at each index.
\<close>

definition getRandomValues :: "(nat \<Rightarrow> byte) \<Rightarrow> byte list \<Rightarrow> byte list" where
  "getRandomValues rng array = map rng [0..<length array]"

definition generateShareToken :: "(nat \<Rightarrow> byte) \<Rightarrow> string" where
  "generateShareToken rng =
     (let array = replicate 16 (0 :: byte);
          array = getRandomValues rng array
      in remove_all (CHR ''='')
           (replace_all (CHR ''/'') (CHR ''_'')
              (replace_all (CHR ''+'') (CHR ''-'')
                 (btoa (fromCharCode array)))))"

definition b64url_alphabet :: string where
  "b64url_alphabet = ''ABCDEFGHIJKLMNOPQRSTUVWXYZabcdefghijklmnopqrstuvwxyz0123456789-_''"

definition url_char :: "char \<Rightarrow> char" where
  "url_char x = (if x = CHR ''+'' then CHR ''-'' else if x = CHR ''/'' then CHR ''_'' else x)"

text \<open>
  The encoding the specification names for the token, written from RFC 4648 on its own
  (section 5, "base64url", with the padding left out as section 3.2 allows): the bytes
  are read three at a time as one 24-bit number, which gives four 6-bit digits; a last
  group of one byte is extended by four zero bits and gives two digits, a last group of
  two bytes is extended by two zero bits and gives three.
\<close>

definition b64url_digit :: "nat \<Rightarrow> char" where
  "b64url_digit n = b64url_alphabet ! n"

fun base64url_unpadded :: "byte list \<Rightarrow> string" where
  "base64url_unpadded [] = []"
| "base64url_unpadded [x] =
     (let n = unat x * 16 in
      [b64url_digit (n div 64), b64url_digit (n mod 64)])"
| "base64url_unpadded [x, y] =
     (let n = (unat x * 256 + unat y) * 4 in
      [b64url_digit (n div 4096), b64url_digit (n div 64 mod 64), b64url_digit (n mod 64)])"
| "base64url_unpadded (x # y # z # rest) =
     (let n = unat x * 65536 + unat y * 256 + unat z in
      [b64url_digit (n div 262144), b64url_digit (n div 4096 mod 64),
       b64url_digit (n div 64 mod 64), b64url_digit (n mod 64)] @ base64url_unpadded rest)"

subsection \<open>\<open>TextEncoder.encode\<close>: a JavaScript string to UTF-8\<close>

text \<open>
  The encoder reads the code units as code points first: a high surrogate followed by a
  low surrogate is one supplementary code point, and a surrogate that is not part of such
  a pair is replaced by U+FFFD. Each code point then gives one to four bytes.
\<close>

definition utf8_bytes :: "nat \<Rightarrow> byte list" where
  "utf8_bytes cp =
     (if cp < 0x80 then [of_nat cp]
      else if cp < 0x800 then [of_nat (0xC0 + cp div 64), of_nat (0x80 + cp mod 64)]
      else if cp < 0x10000 then
        [of_nat (0xE0 + cp div 4096), of_nat (0x80 + (cp div 64) mod 64),
         of_nat (0x80 + cp mod 64)]
      else
        [of_nat (0xF0 + cp div 262144), of_nat (0x80 + (cp div 4096) mod 64),
         of_nat (0x80 + (cp div 64) mod 64), of_nat (0x80 + cp mod 64)])"

definition is_high_surrogate :: "16 word \<Rightarrow> bool" where
  "is_high_surrogate c = (0xD800 \<le> c \<and> c \<le> 0xDBFF)"

definition is_low_surrogate :: "16 word \<Rightarrow> bool" where
  "is_low_surrogate c = (0xDC00 \<le> c \<and> c \<le> 0xDFFF)"

fun code_points :: "jsstring \<Rightarrow> nat list" where
  "code_points [] = []"
| "code_points [c] =
     (if is_high_surrogate c \<or> is_low_surrogate c then [0xFFFD] else [unat c])"
| "code_points (c # d # rest) =
     (if is_high_surrogate c then
        (if is_low_surrogate d
         then (0x10000 + (unat c - 0xD800) * 0x400 + (unat d - 0xDC00)) # code_points rest
         else 0xFFFD # code_points (d # rest))
      else if is_low_surrogate c then 0xFFFD # code_points (d # rest)
      else unat c # code_points (d # rest))"

definition TextEncoder_encode :: "jsstring \<Rightarrow> byte list" where
  "TextEncoder_encode s = concat (map utf8_bytes (code_points s))"

subsection \<open>SHA-256 (FIPS 180-4)\<close>

type_synonym u32 = "32 word"

definition Ch :: "u32 \<Rightarrow> u32 \<Rightarrow> u32 \<Rightarrow> u32" where
  "Ch x y z = (x AND y) XOR (NOT x AND z)"

definition Maj :: "u32 \<Rightarrow> u32 \<Rightarrow> u32 \<Rightarrow> u32" where
  "Maj x y z = (x AND y) XOR (x AND z) XOR (y AND z)"

definition Sigma0 :: "u32 \<Rightarrow> u32" where
  "Sigma0 x = word_rotr 2 x XOR word_rotr 13 x XOR word_rotr 22 x"

definition Sigma1 :: "u32 \<Rightarrow> u32" where
  "Sigma1 x = word_rotr 6 x XOR word_rotr 11 x XOR word_rotr 25 x"

definition sigma0 :: "u32 \<Rightarrow> u32" where
  "sigma0 x = word_rotr 7 x XOR word_rotr 18 x XOR drop_bit 3 x"

definition sigma1 :: "u32 \<Rightarrow> u32" where
  "sigma1 x = word_rotr 17 x XOR word_rotr 19 x XOR drop_bit 10 x"

text \<open>
  The round constants (the first 32 bits of the fractional parts of the cube roots of
  the first 64 primes) and the initial hash value (likewise for the square roots of the
  first 8 primes), in decimal.
\<close>

definition sha256_K :: "u32 list" where
  "sha256_K =
    [
     1116352408, 1899447441, 3049323471, 3921009573, 961987163, 1508970993,
     2453635748, 2870763221, 3624381080, 310598401, 607225278, 1426881987,
     1925078388, 2162078206, 2614888103, 3248222580, 3835390401, 4022224774,
     264347078, 604807628, 770255983, 1249150122, 1555081692, 1996064986,
     2554220882, 2821834349, 2952996808, 3210313671, 3336571891, 3584528711,
     113926993, 338241895, 666307205, 773529912, 1294757372, 1396182291,
     1695183700, 1986661051, 2177026350, 2456956037, 2730485921, 2820302411,
     3259730800, 3345764771, 3516065817, 3600352804, 4094571909, 275423344,
     430227734, 506948616, 659060556, 883997877, 958139571, 1322822218,
     1537002063, 1747873779, 1955562222, 2024104815, 2227730452, 2361852424,
     2428436474, 2756734187, 3204031479, 3329325298
    ]"

definition sha256_H0 :: "u32 list" where
  "sha256_H0 =
    [
     1779033703, 3144134277, 1013904242, 2773480762, 1359893119, 2600822924,
     528734635, 1541459225
    ]"

definition be32 :: "u32 \<Rightarrow> byte list" where
  "be32 w = [ucast (drop_bit 24 w), ucast (drop_bit 16 w), ucast (drop_bit 8 w), ucast w]"

definition be64 :: "64 word \<Rightarrow> byte list" where
  "be64 w = map (\<lambda>i. ucast (drop_bit (8 * (7 - i)) w)) [0..<8]"

definition sha256_pad :: "byte list \<Rightarrow> byte list" where
  "sha256_pad m =
     m @ [0x80] @ replicate ((119 - length m mod 64) mod 64) 0 @ be64 (of_nat (8 * length m))"

fun be_words :: "byte list \<Rightarrow> u32 list" where
  "be_words (a # b # c # d # rest) =
     (push_bit 24 (ucast a) OR push_bit 16 (ucast b) OR push_bit 8 (ucast c) OR ucast d)
       # be_words rest"
| "be_words _ = []"

fun schedule :: "nat \<Rightarrow> u32 list \<Rightarrow> u32 list" where
  "schedule 0 w = w"
| "schedule (Suc n) w =
     (let t = length w in
      schedule n (w @ [sigma1 (w ! (t - 2)) + w ! (t - 7) + sigma0 (w ! (t - 15)) + w ! (t - 16)]))"

fun sha256_round :: "u32 list \<Rightarrow> u32 \<times> u32 \<Rightarrow> u32 list" where
  "sha256_round [a, b, c, d, e, f, g, h] (k, w) =
     (let t1 = h + Sigma1 e + Ch e f g + k + w;
          t2 = Sigma0 a + Maj a b c
      in [t1 + t2, a, b, c, d + t1, e, f, g])"
| "sha256_round s _ = s"

definition sha256_block :: "u32 list \<Rightarrow> byte list \<Rightarrow> u32 list" where
  "sha256_block hs block =
     map2 (+) hs (foldl sha256_round hs (zip sha256_K (schedule 48 (be_words block))))"

function sha256_blocks :: "u32 list \<Rightarrow> byte list \<Rightarrow> u32 list" where
  "sha256_blocks hs m =
     (if length m < 64 then hs else sha256_blocks (sha256_block hs (take 64 m)) (drop 64 m))"
  by pat_completeness auto
termination
  by (relation "measure (\<lambda>(hs, m). length m)") auto

definition sha256 :: "byte list \<Rightarrow> byte list" where
  "sha256 m = concat (map be32 (sha256_blocks sha256_H0 (sha256_pad m)))"

declare sha256_blocks.simps [simp del]

subsection \<open>\<open>hashPassword\<close> and \<open>verifyPassword\<close> (queries.ts, lines 17-27)\<close>

text \<open>Both are \<open>async\<close>; awaiting them gives the values below.\<close>

definition hashPassword :: "jsstring \<Rightarrow> string" where
  "hashPassword password =
     (let data = TextEncoder_encode password;
          hash = sha256 data
      in btoa (fromCharCode hash))"

definition verifyPassword :: "jsstring \<Rightarrow> string \<Rightarrow> bool" where
  "verifyPassword password hash =
     (let hashedPassword = hashPassword password in hashedPassword = hash)"

section \<open>The data the repository functions handle\<close>

text \<open>
  An ISO-8601 time stamp, as \<open>Date.prototype.toISOString\<close> prints it, is kept as the
  instant it denotes (milliseconds since the epoch). A \<open>Date\<close> object holds such an
  instant or is an invalid date, on which \<open>toISOString\<close> raises a \<open>RangeError\<close>.
\<close>

type_synonym timestamp = int

datatype jsdate = Date int | InvalidDate

text \<open>
  The error object a store request resolves to (\<open>error.code\<close>, \<open>error.message\<close>), and
  what the functions of \<open>queries.ts\<close> throw: \<open>new Error("User not authenticated")\<close>,
  a store error passed on unchanged, or the \<open>RangeError\<close> of \<open>toISOString\<close>.
\<close>

datatype pg_error = PgError (code: string) (msg: string)

datatype error = NotAuthenticated | StoreError pg_error | RangeError

definition toISOString :: "jsdate \<Rightarrow> error + timestamp" where
  "toISOString d = (case d of Date t \<Rightarrow> Inr t | InvalidDate \<Rightarrow> Inl RangeError)"

text \<open>
  JavaScript truthiness of an optional string (\<open>undefined\<close> and \<open>""\<close> are falsy), and
  \<open>x || d\<close> on an optional string and on an optional number.
\<close>

definition truthy :: "string option \<Rightarrow> bool" where
  "truthy x = (case x of None \<Rightarrow> False | Some s \<Rightarrow> s \<noteq> [])"

definition or_else :: "string option \<Rightarrow> string \<Rightarrow> string" where
  "or_else x d = (case x of None \<Rightarrow> d | Some s \<Rightarrow> if s \<noteq> [] then s else d)"

definition or_zero :: "nat option \<Rightarrow> nat" where
  "or_zero x = (case x of None \<Rightarrow> 0 | Some n \<Rightarrow> n)"

definition or_null :: "string option \<Rightarrow> string option" where
  "or_null x = (case x of None \<Rightarrow> None | Some s \<Rightarrow> if s \<noteq> [] then Some s else None)"

subsection \<open>Arguments of \<open>createMessage\<close>\<close>

text \<open>
  \<open>FileUploadResult\<close> is declared in \<open>./file-upload\<close>, which is not among the sources;
  the record has the properties \<open>createMessage\<close> reads from it. One element of the
  \<open>attachments\<close> array of a \<open>file_attachments\<close> part is a \<open>part_attachment\<close>. A
  \<open>UIMessage\<close> carries an optional id, its role and content, optional parts and an
  optional creation date; a part other than the one \<open>createMessage\<close> builds is kept as
  its \<open>type\<close> and an opaque payload.
\<close>

record FileUploadResult =
  fu_id :: "string option"
  fu_fileName :: string
  fu_fileType :: "string option"
  fu_size :: "nat option"
  fu_fileSize :: "nat option"
  fu_url :: "string option"
  fu_fileUrl :: "string option"
  fu_thumbnailUrl :: "string option"
  fu_content :: "string option"
  fu_extractedText :: "string option"

record part_attachment =
  pa_id :: "string option"
  pa_fileName :: string
  pa_fileType :: "string option"
  pa_fileSize :: nat
  pa_fileUrl :: "string option"
  pa_thumbnailUrl :: "string option"
  pa_content :: "string option"
  pa_extractedText :: "string option"

datatype part = Part string string | FileAttachmentsPart "part_attachment list"

record UIMessage =
  ui_id :: "string option"
  ui_role :: string
  ui_content :: string
  ui_parts :: "part list option"
  ui_createdAt :: "jsdate option"

subsection \<open>Rows\<close>

text \<open>
  One record per table, with the columns the functions modelled here read or write. A
  column a request does not name is \<open>None\<close> in the row it carries: the store keeps the
  stored value when it updates a row, and \<open>None\<close> stands for the column's default when
  it inserts one.
\<close>

record thread_row =
  t_id :: string
  t_title :: string
  t_user_id :: string
  t_last_message_at :: "timestamp option"

record message_row =
  m_id :: string
  m_thread_id :: string
  m_user_id :: string
  m_parts :: "part list"
  m_role :: string
  m_content :: string
  m_created_at :: timestamp
  m_updated_at :: "timestamp option"

record attachment_row =
  a_id :: string
  a_message_id :: string
  a_thread_id :: string
  a_user_id :: string
  a_file_name :: string
  a_file_type :: string
  a_file_size :: nat
  a_file_url :: string
  a_thumbnail_url :: "string option"
  a_created_at :: timestamp

record persona_row =
  tp_thread_id :: string
  tp_persona_id :: string
  tp_user_id :: string

record pinned_row =
  pin_id :: string
  pin_user_id :: string
  pin_thread_id :: string
  pin_message_id :: string

record preferences_row =
  pref_user_id :: string
  pref_data :: string

section \<open>The Supabase client\<close>

text \<open>
  Every call of the client that the modelled functions make is one \<open>request\<close>. The
  comment of each constructor is the call chain it stands for.
\<close>

datatype request =
    GetUser
      \<comment> \<open>\<open>supabase.auth.getUser()\<close>\<close>
  | SelectThread string string
      \<comment> \<open>\<open>from("threads").select(..).eq("id", _).eq("user_id", _).single()\<close>\<close>
  | InsertThread thread_row
      \<comment> \<open>\<open>from("threads").insert(_)\<close>\<close>
  | UpsertMessage message_row
      \<comment> \<open>\<open>from("messages").upsert(_, {onConflict: 'id', ignoreDuplicates: false})\<close>\<close>
  | InsertFileAttachments "attachment_row list"
      \<comment> \<open>\<open>from("file_attachments").insert(_)\<close>\<close>
  | UpdateThreadLastMessageAt string timestamp
      \<comment> \<open>\<open>from("threads").update({last_message_at: _}).eq("id", _)\<close>\<close>
  | SelectMessage string
      \<comment> \<open>\<open>from("messages").select("id, user_id, thread_id, role, content").eq("id", _).single()\<close>\<close>
  | UpdateUserMessage string string string timestamp
      \<comment> \<open>\<open>from("messages").update({content, updated_at}).eq("id", _).eq("user_id", _).select()\<close>\<close>
  | UpdateAssistantMessage string string string timestamp
      \<comment> \<open>\<open>from("messages").update({content, updated_at}).eq("id", _).eq("thread_id", _).select()\<close>\<close>
  | SelectMessageContent string
      \<comment> \<open>\<open>from("messages").select("content").eq("id", _).single()\<close>\<close>
  | DeleteThreadPersona string string
      \<comment> \<open>\<open>from("thread_personas").delete().eq("thread_id", _).eq("user_id", _)\<close>\<close>
  | InsertThreadPersona persona_row
      \<comment> \<open>\<open>from("thread_personas").insert(_).select().single()\<close>\<close>
  | SelectPinnedMessage string string string
      \<comment> \<open>\<open>from("pinned_messages").select("id").eq("user_id", _).eq("thread_id", _).eq("message_id", _).single()\<close>\<close>
  | SelectUserPreferences string
      \<comment> \<open>\<open>from("user_preferences").select("*").eq("user_id", _).single()\<close>\<close>

text \<open>
  The \<open>world\<close> is what the client stands in front of: the session (the id of the
  signed-in user, if any) and the tables; and what a run leaves behind besides: the
  requests issued so far, in order, the \<open>console.warn\<close> lines, and how many times
  \<open>new Date()\<close> and \<open>uuidv4()\<close> have been called.

  The \<open>env\<close> is what the code does not control: whether a request fails (\<open>fault\<close>
  gives the error object the client resolves to, in which case the request has no
  effect on the tables), the instant each \<open>new Date()\<close> reads, and the string each
  \<open>uuidv4()\<close> returns.
\<close>

record world =
  session :: "string option"
  threads :: "thread_row list"
  messages :: "message_row list"
  file_attachments :: "attachment_row list"
  thread_personas :: "persona_row list"
  pinned_messages :: "pinned_row list"
  user_preferences :: "preferences_row list"
  requests :: "request list"
  warnings :: "string list"
  dates :: nat
  uuids :: nat

record env =
  fault :: "request \<Rightarrow> pg_error option"
  clock :: "nat \<Rightarrow> timestamp"
  uuidv4 :: "nat \<Rightarrow> string"

definition perform ::
  "env \<Rightarrow> request \<Rightarrow> (world \<Rightarrow> (pg_error + 'a) \<times> world) \<Rightarrow> world \<Rightarrow> (pg_error + 'a) \<times> world" where
  "perform e req run w =
     (let w' = w\<lparr>requests := requests w @ [req]\<rparr> in
      case fault e req of
        Some err \<Rightarrow> (Inl err, w')
      | None \<Rightarrow> run w')"

definition new_Date_ISO :: "env \<Rightarrow> world \<Rightarrow> timestamp \<times> world" where
  \<comment> \<open>\<open>new Date().toISOString()\<close>: the current date is never invalid\<close>
  "new_Date_ISO e w = (clock e (dates w), w\<lparr>dates := Suc (dates w)\<rparr>)"

definition new_uuid :: "env \<Rightarrow> world \<Rightarrow> string \<times> world" where
  \<comment> \<open>\<open>uuidv4()\<close>\<close>
  "new_uuid e w = (uuidv4 e (uuids w), w\<lparr>uuids := Suc (uuids w)\<rparr>)"

text \<open>
  A line of \<open>console.warn\<close> is its arguments joined by a space, in UTF-8. The two
  emoji that open the warnings of \<open>queries.ts\<close> (U+1F4CB; U+26A0 U+FE0F) are spelt out
  in bytes.
\<close>

definition console_warn :: "string \<Rightarrow> world \<Rightarrow> world" where
  "console_warn line w = w\<lparr>warnings := warnings w @ [line]\<rparr>"

definition clipboard_emoji :: string where
  "clipboard_emoji = [CHR 0xF0, CHR 0x9F, CHR 0x93, CHR 0x8B]"

definition warning_emoji :: string where
  "warning_emoji = [CHR 0xE2, CHR 0x9A, CHR 0xA0, CHR 0xEF, CHR 0xB8, CHR 0x8F]"

definition error_message :: "error \<Rightarrow> string" where
  \<comment> \<open>\<open>error.message\<close> of what a \<open>catch\<close> receives\<close>
  "error_message err =
     (case err of
        NotAuthenticated \<Rightarrow> ''User not authenticated''
      | StoreError pg \<Rightarrow> msg pg
      | RangeError \<Rightarrow> ''Invalid time value'')"

text \<open>
  \<open>.single()\<close>: the row when the query has exactly one, and otherwise the error with
  code \<open>PGRST116\<close> (no row, or more than one).
\<close>

definition not_found :: pg_error where
  "not_found = PgError ''PGRST116'' ''JSON object requested, multiple (or no) rows returned''"

definition single :: "'r list \<Rightarrow> pg_error + 'r" where
  "single rows = (case rows of [r] \<Rightarrow> Inr r | _ \<Rightarrow> Inl not_found)"

subsection \<open>The requests\<close>

definition auth_getUser :: "env \<Rightarrow> world \<Rightarrow> (pg_error + string option) \<times> world" where
  "auth_getUser e w = perform e GetUser (\<lambda>w. (Inr (session w), w)) w"

definition user_of :: "pg_error + string option \<Rightarrow> string option" where
  \<comment> \<open>\<open>data.user\<close> of the response: \<open>null\<close> when the call failed\<close>
  "user_of r = (case r of Inl _ \<Rightarrow> None | Inr u \<Rightarrow> u)"

definition select_thread :: "env \<Rightarrow> string \<Rightarrow> string \<Rightarrow> world \<Rightarrow> (pg_error + thread_row) \<times> world" where
  "select_thread e threadId uid w =
     perform e (SelectThread threadId uid)
       (\<lambda>w. (single (filter (\<lambda>t. t_user_id t = uid) (filter (\<lambda>t. t_id t = threadId) (threads w))), w)) w"

definition insert_thread :: "env \<Rightarrow> thread_row \<Rightarrow> world \<Rightarrow> (pg_error + unit) \<times> world" where
  "insert_thread e row w =
     perform e (InsertThread row) (\<lambda>w. (Inr (), w\<lparr>threads := threads w @ [row]\<rparr>)) w"

text \<open>
  Upsert on the conflict column \<open>id\<close>: a stored row with the id of the new one takes the
  columns the request names (all but \<open>updated_at\<close>); with no such row the new one is
  inserted.
\<close>

definition upsert_by_id :: "message_row \<Rightarrow> message_row list \<Rightarrow> message_row list" where
  "upsert_by_id row ms =
     (if m_id row \<in> set (map m_id ms)
      then map (\<lambda>r. if m_id r = m_id row then row\<lparr>m_updated_at := m_updated_at r\<rparr> else r) ms
      else ms @ [row])"

definition upsert_message :: "env \<Rightarrow> message_row \<Rightarrow> world \<Rightarrow> (pg_error + unit) \<times> world" where
  "upsert_message e row w =
     perform e (UpsertMessage row)
       (\<lambda>w. (Inr (), w\<lparr>messages := upsert_by_id row (messages w)\<rparr>)) w"

definition insert_file_attachments ::
  "env \<Rightarrow> attachment_row list \<Rightarrow> world \<Rightarrow> (pg_error + unit) \<times> world" where
  "insert_file_attachments e rows w =
     perform e (InsertFileAttachments rows)
       (\<lambda>w. (Inr (), w\<lparr>file_attachments := file_attachments w @ rows\<rparr>)) w"

definition update_thread_last_message_at ::
  "env \<Rightarrow> string \<Rightarrow> timestamp \<Rightarrow> world \<Rightarrow> (pg_error + unit) \<times> world" where
  "update_thread_last_message_at e threadId ts w =
     perform e (UpdateThreadLastMessageAt threadId ts)
       (\<lambda>w. (Inr (),
          w\<lparr>threads :=
              map (\<lambda>t. if t_id t = threadId then t\<lparr>t_last_message_at := Some ts\<rparr> else t)
                (threads w)\<rparr>)) w"


text \<open>
  An update with \<open>.select()\<close> resolves to the rows it changed: the rows that pass the
  filters, with the new values.
\<close>

definition update_content ::
  "(message_row \<Rightarrow> bool) \<Rightarrow> string \<Rightarrow> timestamp \<Rightarrow> world \<Rightarrow> (pg_error + message_row list) \<times> world" where
  "update_content hit newContent ts w =
     (let ms = map (\<lambda>m. if hit m then m\<lparr>m_content := newContent, m_updated_at := Some ts\<rparr> else m)
                 (messages w)
      in (Inr (filter hit ms), w\<lparr>messages := ms\<rparr>))"



definition select_message_content :: "env \<Rightarrow> string \<Rightarrow> world \<Rightarrow> (pg_error + string) \<times> world" where
  "select_message_content e messageId w =
     perform e (SelectMessageContent messageId)
       (\<lambda>w. (map_sum (\<lambda>err. err) m_content
                (single (filter (\<lambda>m. m_id m = messageId) (messages w))), w)) w"

definition delete_thread_persona :: "env \<Rightarrow> string \<Rightarrow> string \<Rightarrow> world \<Rightarrow> (pg_error + unit) \<times> world" where
  "delete_thread_persona e threadId uid w =
     perform e (DeleteThreadPersona threadId uid)
       (\<lambda>w. (Inr (),
          w\<lparr>thread_personas :=
              filter (\<lambda>p. \<not> (tp_thread_id p = threadId \<and> tp_user_id p = uid))
                (thread_personas w)\<rparr>)) w"

definition insert_thread_persona :: "env \<Rightarrow> persona_row \<Rightarrow> world \<Rightarrow> (pg_error + persona_row) \<times> world" where
  "insert_thread_persona e row w =
     perform e (InsertThreadPersona row)
       (\<lambda>w. (single [row], w\<lparr>thread_personas := thread_personas w @ [row]\<rparr>)) w"

definition select_pinned_message ::
  "env \<Rightarrow> string \<Rightarrow> string \<Rightarrow> string \<Rightarrow> world \<Rightarrow> (pg_error + pinned_row) \<times> world" where
  "select_pinned_message e uid threadId messageId w =
     perform e (SelectPinnedMessage uid threadId messageId)
       (\<lambda>w. (single
                (filter (\<lambda>p. pin_message_id p = messageId)
                   (filter (\<lambda>p. pin_thread_id p = threadId)
                      (filter (\<lambda>p. pin_user_id p = uid) (pinned_messages w)))), w)) w"

definition select_user_preferences :: "env \<Rightarrow> string \<Rightarrow> world \<Rightarrow> (pg_error + preferences_row) \<times> world" where
  "select_user_preferences e uid w =
     perform e (SelectUserPreferences uid)
       (\<lambda>w. (single (filter (\<lambda>p. pref_user_id p = uid) (user_preferences w)), w)) w"

section \<open>The repository functions\<close>

text \<open>
  Each function takes the \<open>env\<close> and the \<open>world\<close> and returns its result with the
  world it leaves. A function that can throw returns \<open>error + _\<close>, \<open>Inl\<close> being the
  exception. \<open>console.log\<close> and \<open>console.error\<close> lines have no counterpart here;
  \<open>console.warn\<close> lines are kept in \<open>warnings\<close>.
\<close>

subsection \<open>Ensuring that the thread exists\<close>

text \<open>
  \<open>createMessage\<close> (lines 221-254) and \<open>setThreadPersona\<close> (lines 1024-1049) start
  with the same steps: look the thread up by id and owner; on the error with code
  \<open>PGRST116\<close> insert the row \<open>{id, title: "New Chat", user_id}\<close> and throw the error of
  that insert, if any; throw any other error of the lookup. (The \<open>try\<close> around these
  steps in \<open>createMessage\<close> throws again what it catches.)
\<close>

definition ensureThread :: "env \<Rightarrow> string \<Rightarrow> string \<Rightarrow> world \<Rightarrow> (error + unit) \<times> world" where
  "ensureThread e threadId uid w =
     (case select_thread e threadId uid w of
        (Inl threadCheckError, w1) \<Rightarrow>
          if code threadCheckError = ''PGRST116'' then
            (case insert_thread e
                    \<lparr>t_id = threadId, t_title = ''New Chat'', t_user_id = uid,
                     t_last_message_at = None\<rparr> w1 of
               (Inl createError, w2) \<Rightarrow> (Inl (StoreError createError), w2)
             | (Inr _, w2) \<Rightarrow> (Inr (), w2))
          else (Inl (StoreError threadCheckError), w1)
      | (Inr existingThread, w1) \<Rightarrow> (Inr (), w1))"

subsection \<open>\<open>createMessage\<close> (queries.ts, lines 207-393)\<close>

text \<open>Lines 256-274: the parts of the message, with the uploads appended as one part.\<close>

definition upload_part :: "FileUploadResult \<Rightarrow> part_attachment" where
  "upload_part attachment =
     \<lparr>pa_id = fu_id attachment,
      pa_fileName = fu_fileName attachment,
      pa_fileType = fu_fileType attachment,
      pa_fileSize = or_zero (fu_size attachment),
      pa_fileUrl = fu_url attachment,
      pa_thumbnailUrl = fu_thumbnailUrl attachment,
      pa_content = fu_content attachment,
      pa_extractedText = fu_extractedText attachment\<rparr>"

definition updatedParts :: "UIMessage \<Rightarrow> FileUploadResult list option \<Rightarrow> part list" where
  "updatedParts message fileAttachments =
     (case ui_parts message of None \<Rightarrow> [] | Some ps \<Rightarrow> ps) @
     (case fileAttachments of
        None \<Rightarrow> []
      | Some fs \<Rightarrow> if fs \<noteq> [] then [FileAttachmentsPart (map upload_part fs)] else [])"

text \<open>
  Lines 276-279. The pattern
  \<open>/^[0-9a-f]{8}-[0-9a-f]{4}-[0-9a-f]{4}-[0-9a-f]{4}-[0-9a-f]{12}$/i\<close>: groups of
  hexadecimal digits of either case, of the given lengths, separated by hyphens, and
  nothing before or after.
\<close>

definition is_hex_digit :: "char \<Rightarrow> bool" where
  "is_hex_digit c = (c \<in> set ''0123456789abcdefABCDEF'')"

fun match_hex_groups :: "nat list \<Rightarrow> string \<Rightarrow> bool" where
  "match_hex_groups [] s = False"
| "match_hex_groups [n] s = (length s = n \<and> list_all is_hex_digit s)"
| "match_hex_groups (n # ns) s =
     (n < length s \<and> list_all is_hex_digit (take n s) \<and> s ! n = CHR ''-'' \<and>
      match_hex_groups ns (drop (Suc n) s))"

definition uuid_regex :: "string \<Rightarrow> bool" where
  "uuid_regex s = match_hex_groups [8, 4, 4, 4, 12] s"

definition valid_message_id :: "string option \<Rightarrow> bool" where
  \<comment> \<open>\<open>message.id && message.id.match(..)\<close>\<close>
  "valid_message_id i = (case i of None \<Rightarrow> False | Some s \<Rightarrow> s \<noteq> [] \<and> uuid_regex s)"

definition resolveMessageId :: "env \<Rightarrow> UIMessage \<Rightarrow> world \<Rightarrow> string \<times> world" where
  "resolveMessageId e message w =
     (case ui_id message of
        None \<Rightarrow> new_uuid e w
      | Some i \<Rightarrow> if valid_message_id (Some i) then (i, w) else new_uuid e w)"

text \<open>\<open>(message.createdAt || new Date()).toISOString()\<close>, lines 295 and 383.\<close>

definition createdAt_ISO :: "env \<Rightarrow> UIMessage \<Rightarrow> world \<Rightarrow> (error + timestamp) \<times> world" where
  "createdAt_ISO e message w =
     (case ui_createdAt message of
        Some d \<Rightarrow> (toISOString d, w)
      | None \<Rightarrow> (case new_Date_ISO e w of (t, w') \<Rightarrow> (Inr t, w')))"

text \<open>
  Lines 331-357: the uploads that have a URL, each turned into a row. The filter warns
  once for every upload it drops; the map draws an id for an upload that has none, and
  reads the clock once for every row.
\<close>

definition has_url :: "FileUploadResult \<Rightarrow> bool" where
  \<comment> \<open>the filter keeps what fails \<open>!attachment.fileUrl && !attachment.url\<close>\<close>
  "has_url attachment = (\<not> (\<not> truthy (fu_fileUrl attachment) \<and> \<not> truthy (fu_url attachment)))"

definition skip_warning :: "FileUploadResult \<Rightarrow> string" where
  "skip_warning attachment =
     warning_emoji @ '' Skipping attachment without URL: '' @ fu_fileName attachment"

definition attachment_row_of ::
  "env \<Rightarrow> string \<Rightarrow> string \<Rightarrow> string \<Rightarrow> FileUploadResult \<Rightarrow> world \<Rightarrow> attachment_row \<times> world" where
  "attachment_row_of e messageId threadId uid attachment w =
     (case (case fu_id attachment of
              None \<Rightarrow> new_uuid e w
            | Some i \<Rightarrow> if i \<noteq> [] then (i, w) else new_uuid e w) of
        (attachmentId, w1) \<Rightarrow>
          (case new_Date_ISO e w1 of
             (now, w2) \<Rightarrow>
               (\<lparr>a_id = attachmentId,
                 a_message_id = messageId,
                 a_thread_id = threadId,
                 a_user_id = uid,
                 a_file_name = fu_fileName attachment,
                 a_file_type = or_else (fu_fileType attachment) ''text/plain'',
                 a_file_size = or_zero (fu_fileSize attachment),
                 a_file_url = or_else (fu_fileUrl attachment) (or_else (fu_url attachment) ''''),
                 a_thumbnail_url = or_null (fu_thumbnailUrl attachment),
                 a_created_at = now\<rparr>, w2)))"

fun attachment_rows ::
  "env \<Rightarrow> string \<Rightarrow> string \<Rightarrow> string \<Rightarrow> FileUploadResult list \<Rightarrow> world \<Rightarrow> attachment_row list \<times> world" where
  "attachment_rows e messageId threadId uid [] w = ([], w)"
| "attachment_rows e messageId threadId uid (attachment # rest) w =
     (case attachment_row_of e messageId threadId uid attachment w of
        (row, w1) \<Rightarrow>
          (case attachment_rows e messageId threadId uid rest w1 of
             (rows, w2) \<Rightarrow> (row # rows, w2)))"

definition attachmentsToInsert ::
  "env \<Rightarrow> string \<Rightarrow> string \<Rightarrow> string \<Rightarrow> FileUploadResult list \<Rightarrow> world \<Rightarrow> attachment_row list \<times> world" where
  "attachmentsToInsert e messageId threadId uid fileAttachments w =
     (let w1 = foldl (\<lambda>w a. console_warn (skip_warning a) w) w
                 (filter (\<lambda>a. \<not> has_url a) fileAttachments)
      in attachment_rows e messageId threadId uid (filter has_url fileAttachments) w1)"

text \<open>
  Lines 317-378. The error of the insert is thrown inside the \<open>try\<close> and caught by its
  \<open>catch\<close>, which logs it and throws nothing.
\<close>

definition insertFileAttachments ::
  "env \<Rightarrow> string \<Rightarrow> string \<Rightarrow> string \<Rightarrow> FileUploadResult list option \<Rightarrow> world \<Rightarrow> world" where
  "insertFileAttachments e messageId threadId uid fileAttachments w =
     (case fileAttachments of
        None \<Rightarrow> w
      | Some fs \<Rightarrow>
          if fs \<noteq> [] then
            (case attachmentsToInsert e messageId threadId uid fs w of
               (rows, w1) \<Rightarrow>
                 if rows \<noteq> [] then
                   (case insert_file_attachments e rows w1 of
                      (Inl attachmentsError, w2) \<Rightarrow> w2
                    | (Inr _, w2) \<Rightarrow> w2)
                 else w1)
          else w)"

text \<open>
  Lines 256-313: the message id is settled, the row is built and upserted; the error of
  the upsert is thrown. The block gives the id it settled on.
\<close>

definition storeMessage ::
  "env \<Rightarrow> string \<Rightarrow> string \<Rightarrow> UIMessage \<Rightarrow> FileUploadResult list option \<Rightarrow> world \<Rightarrow> (error + string) \<times> world" where
  "storeMessage e threadId uid message fileAttachments w =
     (case resolveMessageId e message w of
        (messageId, w1) \<Rightarrow>
     (case createdAt_ISO e message w1 of
        (Inl err, w2) \<Rightarrow> (Inl err, w2)
      | (Inr created_at, w2) \<Rightarrow>
     (case upsert_message e
             \<lparr>m_id = messageId,
              m_thread_id = threadId,
              m_user_id = uid,
              m_parts = updatedParts message fileAttachments,
              m_role = ui_role message,
              m_content = ui_content message,
              m_created_at = created_at,
              m_updated_at = None\<rparr> w2 of
        (Inl messageError, w3) \<Rightarrow> (Inl (StoreError messageError), w3)
      | (Inr _, w3) \<Rightarrow> (Inr messageId, w3))))"

text \<open>Lines 380-392: the thread's \<open>last_message_at\<close> is set; the error of the update is thrown.\<close>

definition touchThread :: "env \<Rightarrow> string \<Rightarrow> UIMessage \<Rightarrow> world \<Rightarrow> (error + unit) \<times> world" where
  "touchThread e threadId message w =
     (case createdAt_ISO e message w of
        (Inl err, w1) \<Rightarrow> (Inl err, w1)
      | (Inr last_message_at, w1) \<Rightarrow>
     (case update_thread_last_message_at e threadId last_message_at w1 of
        (Inl threadError, w2) \<Rightarrow> (Inl (StoreError threadError), w2)
      | (Inr _, w2) \<Rightarrow> (Inr (), w2)))"

text \<open>The function: lines 208-211, then the four blocks in order.\<close>

definition createMessage ::
  "env \<Rightarrow> string \<Rightarrow> UIMessage \<Rightarrow> FileUploadResult list option \<Rightarrow> world \<Rightarrow> (error + unit) \<times> world" where
  "createMessage e threadId message fileAttachments w =
     (case auth_getUser e w of
        (r, w0) \<Rightarrow>
     (case user_of r of
        None \<Rightarrow> (Inl NotAuthenticated, w0)
      | Some uid \<Rightarrow>
     (case ensureThread e threadId uid w0 of
        (Inl err, w1) \<Rightarrow> (Inl err, w1)
      | (Inr _, w1) \<Rightarrow>
     (case storeMessage e threadId uid message fileAttachments w1 of
        (Inl err, w2) \<Rightarrow> (Inl err, w2)
      | (Inr messageId, w2) \<Rightarrow>
          touchThread e threadId message
            (insertFileAttachments e messageId threadId uid fileAttachments w2)))))"

subsection \<open>\<open>isPinned\<close> (queries.ts, lines 999-1015)\<close>

definition isPinned :: "env \<Rightarrow> string \<Rightarrow> string \<Rightarrow> world \<Rightarrow> (error + bool) \<times> world" where
  "isPinned e threadId messageId w =
     (case auth_getUser e w of
        (r, w0) \<Rightarrow>
     (case user_of r of
        None \<Rightarrow> (Inr False, w0)
      | Some uid \<Rightarrow>
     (case select_pinned_message e uid threadId messageId w0 of
        (Inl err, w1) \<Rightarrow>
          if code err \<noteq> ''PGRST116'' then (Inl (StoreError err), w1) else (Inr False, w1)
      | (Inr data, w1) \<Rightarrow> (Inr True, w1))))"

subsection \<open>\<open>setThreadPersona\<close> (queries.ts, lines 1018-1067)\<close>

text \<open>
  The response of the delete (line 1052) is awaited and dropped: its \<open>error\<close> is not
  read. The function returns the inserted row.
\<close>

definition setThreadPersona ::
  "env \<Rightarrow> string \<Rightarrow> string \<Rightarrow> world \<Rightarrow> (error + persona_row) \<times> world" where
  "setThreadPersona e threadId personaId w =
     (case auth_getUser e w of
        (r, w0) \<Rightarrow>
     (case user_of r of
        None \<Rightarrow> (Inl NotAuthenticated, w0)
      | Some uid \<Rightarrow>
     (case ensureThread e threadId uid w0 of
        (Inl err, w1) \<Rightarrow> (Inl err, w1)
      | (Inr _, w1) \<Rightarrow>
     (case delete_thread_persona e threadId uid w1 of
        (_, w2) \<Rightarrow>
     (case insert_thread_persona e
             \<lparr>tp_thread_id = threadId, tp_persona_id = personaId, tp_user_id = uid\<rparr> w2 of
        (Inl err, w3) \<Rightarrow> (Inl (StoreError err), w3)
      | (Inr data, w3) \<Rightarrow> (Inr data, w3))))))"

subsection \<open>\<open>updateMessageInDatabase\<close> (queries.ts, lines 1167-1316)\<close>


text \<open>Lines 1264-1311: the response of the update is examined and the row read again.\<close>

definition verifyUpdate ::
  "env \<Rightarrow> string \<Rightarrow> string \<Rightarrow> pg_error + message_row list \<Rightarrow> world \<Rightarrow> bool \<times> world" where
  "verifyUpdate e messageId newContent updateResult w =
     (case updateResult of
        Inl updateError \<Rightarrow> (False, w)
      | Inr updatedData \<Rightarrow>
          if updatedData = [] then (False, w)
          else
            (case select_message_content e messageId w of
               (Inl verifyError, w1) \<Rightarrow> (False, w1)
             | (Inr content, w1) \<Rightarrow>
                 if content = newContent then (True, w1) else (False, w1)))"


subsection \<open>\<open>getUserPreferences\<close> (queries.ts, lines 1319-1346)\<close>

text \<open>
  \<open>getUserPreferences_try\<close> is the \<open>try\<close> block (lines 1326-1341), \<open>Inl\<close> being what
  it throws; the \<open>catch\<close> (lines 1342-1345) warns and returns \<open>null\<close>.
\<close>

definition getUserPreferences_try ::
  "env \<Rightarrow> string \<Rightarrow> world \<Rightarrow> (error + preferences_row option) \<times> world" where
  "getUserPreferences_try e uid w =
     (case select_user_preferences e uid w of
        (Inl err, w1) \<Rightarrow>
          if code err \<noteq> ''PGRST116'' then
            (if code err = ''42P01'' then
               (Inr None,
                console_warn
                  (clipboard_emoji @
                   '' user_preferences table does not exist yet, falling back to localStorage'')
                  w1)
             else (Inl (StoreError err), w1))
          else (Inr None, w1)
      | (Inr data, w1) \<Rightarrow> (Inr (Some data), w1))"

definition getUserPreferences :: "env \<Rightarrow> world \<Rightarrow> (error + preferences_row option) \<times> world" where
  "getUserPreferences e w =
     (case auth_getUser e w of
        (r, w0) \<Rightarrow>
     (case user_of r of
        None \<Rightarrow> (Inl NotAuthenticated, w0)
      | Some uid \<Rightarrow>
     (case getUserPreferences_try e uid w0 of
        (Inl err, w1) \<Rightarrow>
          (Inr None,
           console_warn
             (clipboard_emoji @ '' Failed to query user_preferences table: '' @ error_message err)
             w1)
      | (Inr v, w1) \<Rightarrow> (Inr v, w1))))"

section \<open>Observations used to state the properties\<close>

text \<open>
  What the thread lookup of \<open>ensureThread\<close> resolves to, given the \<open>threads\<close> table, and
  whether that is the "not found" error; the row inserted for a missing thread.
\<close>

definition thread_lookup :: "env \<Rightarrow> string \<Rightarrow> string \<Rightarrow> thread_row list \<Rightarrow> pg_error + thread_row" where
  "thread_lookup e threadId uid ths =
     (case fault e (SelectThread threadId uid) of
        Some err \<Rightarrow> Inl err
      | None \<Rightarrow> single (filter (\<lambda>t. t_user_id t = uid) (filter (\<lambda>t. t_id t = threadId) ths)))"

definition thread_missing :: "env \<Rightarrow> string \<Rightarrow> string \<Rightarrow> thread_row list \<Rightarrow> bool" where
  "thread_missing e threadId uid ths =
     (case thread_lookup e threadId uid ths of
        Inl err \<Rightarrow> code err = ''PGRST116''
      | Inr _ \<Rightarrow> False)"

definition new_chat :: "string \<Rightarrow> string \<Rightarrow> thread_row" where
  "new_chat threadId uid =
     \<lparr>t_id = threadId, t_title = ''New Chat'', t_user_id = uid, t_last_message_at = None\<rparr>"

text \<open>The columns of a thread row that only an insert sets.\<close>

definition thread_key :: "thread_row \<Rightarrow> string \<times> string \<times> string" where
  "thread_key t = (t_id t, t_title t, t_user_id t)"

text \<open>The id \<open>createMessage\<close> settles on when \<open>n\<close> ids have been generated before.\<close>

definition resolved_id :: "env \<Rightarrow> UIMessage \<Rightarrow> nat \<Rightarrow> string" where
  "resolved_id e message n =
     (case ui_id message of
        None \<Rightarrow> uuidv4 e n
      | Some i \<Rightarrow> if valid_message_id (Some i) then i else uuidv4 e n)"

text \<open>The requests issued by a call: those after the ones recorded before it.\<close>

definition issued :: "world \<Rightarrow> world \<Rightarrow> request list" where
  "issued w w' = drop (length (requests w)) (requests w')"

definition is_InsertThread :: "request \<Rightarrow> bool" where
  "is_InsertThread r = (case r of InsertThread _ \<Rightarrow> True | _ \<Rightarrow> False)"

definition is_UpsertMessage :: "request \<Rightarrow> bool" where
  "is_UpsertMessage r = (case r of UpsertMessage _ \<Rightarrow> True | _ \<Rightarrow> False)"

definition is_InsertFileAttachments :: "request \<Rightarrow> bool" where
  "is_InsertFileAttachments r = (case r of InsertFileAttachments _ \<Rightarrow> True | _ \<Rightarrow> False)"

text \<open>The URL a file-attachment row gets; the number of message rows with a given id.\<close>

definition upload_url :: "FileUploadResult \<Rightarrow> string" where
  "upload_url a = or_else (fu_fileUrl a) (or_else (fu_url a) [])"

definition count_id :: "string \<Rightarrow> message_row list \<Rightarrow> nat" where
  "count_id i ms = length (filter (\<lambda>r. m_id r = i) ms)"

text \<open>
  The instant \<open>(message.createdAt || new Date()).toISOString()\<close> gives when it does not
  raise and \<open>n\<close> dates have been read before; the row \<open>createMessage\<close> upserts.
\<close>

definition created_time :: "env \<Rightarrow> UIMessage \<Rightarrow> nat \<Rightarrow> timestamp" where
  "created_time e message n =
     (case ui_createdAt message of Some (Date t) \<Rightarrow> t | _ \<Rightarrow> clock e n)"

definition stored_row ::
  "env \<Rightarrow> string \<Rightarrow> string \<Rightarrow> UIMessage \<Rightarrow> FileUploadResult list option \<Rightarrow> world \<Rightarrow> message_row" where
  "stored_row e threadId uid message fileAttachments w =
     \<lparr>m_id = resolved_id e message (uuids w),
      m_thread_id = threadId,
      m_user_id = uid,
      m_parts = updatedParts message fileAttachments,
      m_role = ui_role message,
      m_content = ui_content message,
      m_created_at = created_time e message (dates w),
      m_updated_at = None\<rparr>"

text \<open>The rows \<open>createMessage\<close> builds from the uploads, in a given world.\<close>

definition upload_rows ::
  "env \<Rightarrow> string \<Rightarrow> string \<Rightarrow> string \<Rightarrow> FileUploadResult list option \<Rightarrow> world \<Rightarrow> attachment_row list" where
  "upload_rows e messageId threadId uid fileAttachments w =
     (case fileAttachments of
        None \<Rightarrow> []
      | Some fs \<Rightarrow> fst (attachmentsToInsert e messageId threadId uid fs w))"



text \<open>The persona rows of a thread and user.\<close>

definition personas_of :: "string \<Rightarrow> string \<Rightarrow> persona_row list \<Rightarrow> persona_row list" where
  "personas_of threadId uid ps = filter (\<lambda>p. tp_thread_id p = threadId \<and> tp_user_id p = uid) ps"


text \<open>The pinned-message rows of a user for a message of a thread.\<close>

definition pinned_rows :: "string \<Rightarrow> string \<Rightarrow> string \<Rightarrow> pinned_row list \<Rightarrow> pinned_row list" where
  "pinned_rows uid threadId messageId ps =
     filter (\<lambda>p. pin_user_id p = uid \<and> pin_thread_id p = threadId \<and> pin_message_id p = messageId) ps"

text \<open>The uploads handed to \<open>createMessage\<close>, none when the argument is left out.\<close>

definition uploads_of :: "FileUploadResult list option \<Rightarrow> FileUploadResult list" where
  "uploads_of fileAttachments = (case fileAttachments of None \<Rightarrow> [] | Some fs \<Rightarrow> fs)"

text \<open>
  The UUID format in words: five groups of 8, 4, 4, 4 and 12 hexadecimal digits, with a
  hyphen between one group and the next.
\<close>

definition is_uuid_format :: "string \<Rightarrow> bool" where
  "is_uuid_format s =
     (\<exists>a b c d e.
        s = a @ ''-'' @ b @ ''-'' @ c @ ''-'' @ d @ ''-'' @ e \<and>
        length a = 8 \<and> length b = 4 \<and> length c = 4 \<and> length d = 4 \<and> length e = 12 \<and>
        list_all is_hex_digit (a @ b @ c @ d @ e))"

section \<open>Example worlds and arguments\<close>

text \<open>
  A store that never fails, with a clock that advances by one millisecond at every
  reading and a generator that returns well-formed ids; the same store failing, with a
  given error, the requests a predicate picks out.
\<close>

definition env_ok :: env where
  "env_ok =
     \<lparr>fault = (\<lambda>r. None),
      clock = (\<lambda>n. 1700000000000 + int n),
      uuidv4 = (\<lambda>n. ''00000000-0000-4000-8000-00000000000'' @ [char_of (48 + n mod 10)])\<rparr>"

definition env_failing :: "(request \<Rightarrow> bool) \<Rightarrow> pg_error \<Rightarrow> env" where
  "env_failing failing err = env_ok\<lparr>fault := (\<lambda>r. if failing r then Some err else None)\<rparr>"

definition timeout_error :: pg_error where
  "timeout_error = PgError ''57014'' ''canceling statement due to statement timeout''"

definition missing_relation :: pg_error where
  "missing_relation = PgError ''42P01'' ''relation \"public.user_preferences\" does not exist''"

text \<open>An empty store with the user \<open>u1\<close> signed in, and with nobody signed in.\<close>

definition world_u1 :: world where
  "world_u1 =
     \<lparr>session = Some ''u1'', threads = [], messages = [], file_attachments = [],
      thread_personas = [], pinned_messages = [], user_preferences = [],
      requests = [], warnings = [], dates = 0, uuids = 0\<rparr>"

definition world_anonymous :: world where
  "world_anonymous = world_u1\<lparr>session := None\<rparr>"

text \<open>A message with a well-formed id, and two uploads: one with a URL, one without.\<close>

definition hello_id :: string where
  "hello_id = ''123e4567-e89b-12d3-A456-426614174000''"

definition hello :: UIMessage where
  "hello =
     \<lparr>ui_id = Some hello_id, ui_role = ''user'', ui_content = ''hello'',
      ui_parts = None, ui_createdAt = None\<rparr>"

definition upload_with_url :: FileUploadResult where
  "upload_with_url =
     \<lparr>fu_id = None, fu_fileName = ''a.txt'', fu_fileType = None, fu_size = Some 3,
      fu_fileSize = None, fu_url = Some ''https://files.example/a.txt'', fu_fileUrl = None,
      fu_thumbnailUrl = None, fu_content = None, fu_extractedText = None\<rparr>"

definition upload_without_url :: FileUploadResult where
  "upload_without_url = upload_with_url\<lparr>fu_fileName := ''b.txt'', fu_url := None\<rparr>"

text \<open>
  The thread \<open>t1\<close> of \<open>u1\<close>; a message of another user in it, written by the assistant
  or by that user; a persona set on the thread; a preferences row.
\<close>

definition thread_t1 :: thread_row where
  "thread_t1 = \<lparr>t_id = ''t1'', t_title = ''New Chat'', t_user_id = ''u1'', t_last_message_at = None\<rparr>"


definition persona_p1 :: persona_row where
  "persona_p1 = \<lparr>tp_thread_id = ''t1'', tp_persona_id = ''p1'', tp_user_id = ''u1''\<rparr>"

definition preferences_u1 :: preferences_row where
  "preferences_u1 = \<lparr>pref_user_id = ''u1'', pref_data = ''{}''\<rparr>"


section \<open>The token and password helpers\<close>

subsection \<open>Base64 digits\<close>

lemma of_char_lt_256: "(of_char c :: nat) < 256"
  by (cases c) (simp)

lemma length_b64_alphabet: "length b64_alphabet = 64"
  by (simp add: b64_alphabet_def)

lemma distinct_b64_alphabet: "distinct b64_alphabet"
  by (simp add: b64_alphabet_def)

lemma b64_digit_mem: "n < 64 \<Longrightarrow> b64_digit n \<in> set b64_alphabet"
  by (simp add: b64_digit_def length_b64_alphabet)

lemma pad_notin: "CHR ''='' \<notin> set b64_alphabet"
  by (simp add: b64_alphabet_def)

lemma b64_digit_not_pad: "n < 64 \<Longrightarrow> b64_digit n \<noteq> CHR ''=''"
  using b64_digit_mem pad_notin by metis

lemma b64_digit_inj: "m < 64 \<Longrightarrow> n < 64 \<Longrightarrow> b64_digit m = b64_digit n \<longleftrightarrow> m = n"
  by (simp add: b64_digit_def nth_eq_iff_index_eq distinct_b64_alphabet length_b64_alphabet)

lemma idx1: "(of_char a :: nat) div 4 < 64"
  using of_char_lt_256 [of a] by linarith

lemma idx2: "((of_char a :: nat) mod 4) * 16 + (of_char b :: nat) div 16 < 64"
proof -
  have "(of_char a :: nat) mod 4 < 4" "(of_char b :: nat) div 16 < 16"
    using of_char_lt_256 [of b] by linarith+
  then show ?thesis by linarith
qed

lemma idx2': "((of_char a :: nat) mod 4) * 16 < 64"
proof -
  have "(of_char a :: nat) mod 4 < 4" by simp
  then show ?thesis by linarith
qed

lemma idx3: "((of_char b :: nat) mod 16) * 4 + (of_char c :: nat) div 64 < 64"
proof -
  have "(of_char b :: nat) mod 16 < 16" "(of_char c :: nat) div 64 < 4"
    using of_char_lt_256 [of c] by linarith+
  then show ?thesis by linarith
qed

lemma idx3': "((of_char b :: nat) mod 16) * 4 < 64"
proof -
  have "(of_char b :: nat) mod 16 < 16" by simp
  then show ?thesis by linarith
qed

lemma idx4: "(of_char c :: nat) mod 64 < 64"
  by simp

lemmas b64_idx = idx1 idx2 idx2' idx3 idx3' idx4

lemma pair16:
  fixes a b a' b' :: nat
  assumes "a * 16 + b = a' * 16 + b'" "b < 16" "b' < 16"
  shows "a = a' \<and> b = b'"
proof -
  from assms have "a = a'" by linarith
  with assms show ?thesis by simp
qed

lemma pair4:
  fixes a b a' b' :: nat
  assumes "a * 4 + b = a' * 4 + b'" "b < 4" "b' < 4"
  shows "a = a' \<and> b = b'"
proof -
  from assms have "a = a'" by linarith
  with assms show ?thesis by simp
qed

lemma div_mod_eqD:
  fixes x x' :: nat
  assumes "x div k = x' div k" "x mod k = x' mod k"
  shows "x = x'"
  using assms by (metis div_mult_mod_eq)

lemma sextets1:
  fixes x x' :: nat
  assumes "x div 4 = x' div 4" "x mod 4 * 16 = x' mod 4 * 16"
  shows "x = x'"
proof -
  from assms(2) have "x mod 4 = x' mod 4" by simp
  with assms(1) show ?thesis by (rule div_mod_eqD)
qed

lemma sextets2:
  fixes x x' y y' :: nat
  assumes "y < 256" "y' < 256"
    "x div 4 = x' div 4" "x mod 4 * 16 + y div 16 = x' mod 4 * 16 + y' div 16"
    "y mod 16 * 4 = y' mod 16 * 4"
  shows "x = x' \<and> y = y'"
proof -
  have "y div 16 < 16" "y' div 16 < 16" using assms(1,2) by linarith+
  with assms(4) have xy: "x mod 4 = x' mod 4 \<and> y div 16 = y' div 16" by (rule pair16)
  from assms(5) have y: "y mod 16 = y' mod 16" by simp
  have "x = x'" using assms(3) xy by (intro div_mod_eqD [of x 4 x']) simp_all
  moreover have "y = y'" using xy y by (intro div_mod_eqD [of y 16 y']) simp_all
  ultimately show ?thesis by simp
qed

lemma sextets3:
  fixes x x' y y' z z' :: nat
  assumes "y < 256" "y' < 256" "z < 256" "z' < 256"
    "x div 4 = x' div 4" "x mod 4 * 16 + y div 16 = x' mod 4 * 16 + y' div 16"
    "y mod 16 * 4 + z div 64 = y' mod 16 * 4 + z' div 64" "z mod 64 = z' mod 64"
  shows "x = x' \<and> y = y' \<and> z = z'"
proof -
  have "y div 16 < 16" "y' div 16 < 16" using assms(1,2) by linarith+
  with assms(6) have xy: "x mod 4 = x' mod 4 \<and> y div 16 = y' div 16" by (rule pair16)
  have "z div 64 < 4" "z' div 64 < 4" using assms(3,4) by linarith+
  with assms(7) have yz: "y mod 16 = y' mod 16 \<and> z div 64 = z' div 64" by (rule pair4)
  have "x = x'" using assms(5) xy by (intro div_mod_eqD [of x 4 x']) simp_all
  moreover have "y = y'" using xy yz by (intro div_mod_eqD [of y 16 y']) simp_all
  moreover have "z = z'" using yz assms(8) by (intro div_mod_eqD [of z 64 z']) simp_all
  ultimately show ?thesis by simp
qed

lemma sext1:
  assumes "(of_char a :: nat) div 4 = of_char a' div 4"
    "(of_char a :: nat) mod 4 * 16 = of_char a' mod 4 * 16"
  shows "a = a'"
  using sextets1 [OF assms] by simp

lemma sext2:
  assumes "(of_char a :: nat) div 4 = of_char a' div 4"
    "(of_char a :: nat) mod 4 * 16 + of_char b div 16 = of_char a' mod 4 * 16 + of_char b' div 16"
    "(of_char b :: nat) mod 16 * 4 = of_char b' mod 16 * 4"
  shows "a = a' \<and> b = b'"
  using sextets2 [OF of_char_lt_256 of_char_lt_256 assms] by simp

lemma sext3:
  assumes "(of_char a :: nat) div 4 = of_char a' div 4"
    "(of_char a :: nat) mod 4 * 16 + of_char b div 16 = of_char a' mod 4 * 16 + of_char b' div 16"
    "(of_char b :: nat) mod 16 * 4 + of_char c div 64 = of_char b' mod 16 * 4 + of_char c' div 64"
    "(of_char c :: nat) mod 64 = of_char c' mod 64"
  shows "a = a' \<and> b = b' \<and> c = c'"
  using sextets3 [OF of_char_lt_256 of_char_lt_256 of_char_lt_256 of_char_lt_256 assms] by simp

lemmas b64_simps = Let_def b64_digit_inj b64_idx b64_digit_not_pad b64_digit_not_pad [symmetric]

lemma btoa_inj: "btoa s = btoa t \<Longrightarrow> s = t"
proof (induction s arbitrary: t rule: btoa.induct)
  case 1
  then show ?case by (cases t rule: btoa.cases) (simp_all add: Let_def)
next
  case (2 a)
  then show ?case
    by (cases t rule: btoa.cases) (auto simp: b64_simps dest: sext1)
next
  case (3 a b)
  then show ?case
    by (cases t rule: btoa.cases) (auto simp: b64_simps dest: sext2)
next
  case (4 a b c rest)
  show ?case
  proof (cases t rule: btoa.cases)
    case (4 a' b' c' rest')
    with "4.prems" have dig: "a = a' \<and> b = b' \<and> c = c'" and rest: "btoa rest = btoa rest'"
      by (auto simp: b64_simps dest: sext3)
    from "4.IH" [OF refl refl refl rest] dig 4 show ?thesis by simp
  qed (use "4.prems" in \<open>auto simp: b64_simps\<close>)
qed

lemma fromCharCode_inj: "fromCharCode xs = fromCharCode ys \<Longrightarrow> xs = ys"
proof -
  have "inj (\<lambda>b :: byte. char_of (unat b))"
  proof (rule injI)
    fix x y :: byte
    assume "char_of (unat x) = char_of (unat y)"
    then have "(of_char (char_of (unat x)) :: nat) = of_char (char_of (unat y))" by simp
    then have "unat x mod 256 = unat y mod 256" by simp
    moreover have "unat x < 256" "unat y < 256" using unsigned_less [of x] unsigned_less [of y] by simp_all
    ultimately show "x = y" by (simp add: word_unat_eq_iff)
  qed
  then show "fromCharCode xs = fromCharCode ys \<Longrightarrow> xs = ys"
    by (simp add: fromCharCode_def inj_map_eq_map)
qed

lemma set_btoa: "set (btoa s) \<subseteq> insert (CHR ''='') (set b64_alphabet)"
  by (induction s rule: btoa.induct) (auto simp: Let_def b64_digit_mem b64_idx)

lemma length_unpadded_btoa:
  "length (filter (\<lambda>x. x \<noteq> CHR ''='') (btoa s)) = (4 * length s + 2) div 3"
  by (induction s rule: btoa.induct) (simp_all add: Let_def b64_digit_not_pad b64_idx)

subsection \<open>The share token\<close>

lemma url_form:
  "remove_all (CHR ''='')
     (replace_all (CHR ''/'') (CHR ''_'') (replace_all (CHR ''+'') (CHR ''-'') t))
   = map url_char (filter (\<lambda>x. x \<noteq> CHR ''='') t)"
  by (induction t) (simp_all add: remove_all_def replace_all_def url_char_def)

lemma url_char_alphabet: "c \<in> set b64_alphabet \<Longrightarrow> url_char c \<in> set b64url_alphabet"
  by (auto simp: b64_alphabet_def b64url_alphabet_def url_char_def)

lemma url_alphabet_clean:
  "CHR ''+'' \<notin> set b64url_alphabet" "CHR ''/'' \<notin> set b64url_alphabet"
  "CHR ''='' \<notin> set b64url_alphabet"
  by (simp_all add: b64url_alphabet_def)

lemma length_random_array: "length (getRandomValues rng (replicate 16 0)) = 16"
  by (simp add: getRandomValues_def)

lemma getRandomValues_any:
  "getRandomValues (\<lambda>i. bs ! i) (replicate (length bs) 0) = bs"
  by (simp add: getRandomValues_def map_nth)

lemma set_token: "set (generateShareToken rng) \<subseteq> set b64url_alphabet"
proof -
  have "set (filter (\<lambda>x. x \<noteq> CHR ''='') (btoa s)) \<subseteq> set b64_alphabet" for s
    using set_btoa [of s] by auto
  then show ?thesis
    using url_char_alphabet
    by (auto simp: generateShareToken_def Let_def url_form)
qed

subsection \<open>The token is the base64url encoding of the random bytes\<close>

lemma mod64_offset: "c < 64 \<Longrightarrow> (64 * k + c) mod 64 = (c :: nat)"
  by simp

lemma sextet_split3:
  fixes q r s t u v :: nat
  assumes "r < 4" "s < 16" "t < 16" "u < 4" "v < 64"
  defines "n \<equiv> (4 * q + r) * 65536 + (16 * s + t) * 256 + (64 * u + v)"
  shows "n div 262144 = q" "n div 4096 mod 64 = r * 16 + s"
    "n div 64 mod 64 = t * 4 + u" "n mod 64 = v"
proof -
  show "n div 262144 = q"
    using assms by (intro div_nat_eqI) (simp_all add: n_def)
  have "n div 4096 = 64 * q + (r * 16 + s)"
    using assms by (intro div_nat_eqI) (simp_all add: n_def)
  moreover have "r * 16 + s < 64" using assms by simp
  ultimately show "n div 4096 mod 64 = r * 16 + s"
    by (simp only: mod64_offset)
  have "n div 64 = 64 * (64 * q + r * 16 + s) + (t * 4 + u)"
    using assms by (intro div_nat_eqI) (simp_all add: n_def)
  moreover have "t * 4 + u < 64" using assms by simp
  ultimately show "n div 64 mod 64 = t * 4 + u"
    by (simp only: mod64_offset)
  have "n = 64 * (4096 * q + 1024 * r + 64 * s + 4 * t + u) + v"
    by (simp add: n_def)
  with assms(5) show "n mod 64 = v"
    by (simp only: mod64_offset)
qed

lemma sextet_split2:
  fixes q r s t :: nat
  assumes "r < 4" "s < 16" "t < 16"
  defines "n \<equiv> ((4 * q + r) * 256 + (16 * s + t)) * 4"
  shows "n div 4096 = q" "n div 64 mod 64 = r * 16 + s" "n mod 64 = t * 4"
proof -
  show "n div 4096 = q"
    using assms by (intro div_nat_eqI) (simp_all add: n_def)
  have "n div 64 = 64 * q + (r * 16 + s)"
    using assms by (intro div_nat_eqI) (simp_all add: n_def)
  moreover have "r * 16 + s < 64" using assms by simp
  ultimately show "n div 64 mod 64 = r * 16 + s"
    by (simp only: mod64_offset)
  have "n = 64 * (64 * q + 16 * r + s) + t * 4" by (simp add: n_def)
  moreover have "t * 4 < 64" using assms by simp
  ultimately show "n mod 64 = t * 4" by (simp only: mod64_offset)
qed

lemma sextet_split1:
  fixes q r :: nat
  assumes "r < 4"
  defines "n \<equiv> (4 * q + r) * 16"
  shows "n div 64 = q" "n mod 64 = r * 16"
proof -
  show "n div 64 = q"
    using assms by (intro div_nat_eqI) (simp_all add: n_def)
  have "n = 64 * q + r * 16" by (simp add: n_def)
  moreover have "r * 16 < 64" using assms by simp
  ultimately show "n mod 64 = r * 16" by (simp only: mod64_offset)
qed


lemma group3:
  fixes x y z :: nat
  assumes "y < 256" "z < 256"
  shows "(x * 65536 + y * 256 + z) div 262144 = x div 4"
    "(x * 65536 + y * 256 + z) div 4096 mod 64 = x mod 4 * 16 + y div 16"
    "(x * 65536 + y * 256 + z) div 64 mod 64 = y mod 16 * 4 + z div 64"
    "(x * 65536 + y * 256 + z) mod 64 = z mod 64"
proof -
  have b: "x mod 4 < 4" "y div 16 < 16" "y mod 16 < 16" "z div 64 < 4" "z mod 64 < 64"
    using assms by simp_all
  have e: "x * 65536 + y * 256 + z =
      (4 * (x div 4) + x mod 4) * 65536 + (16 * (y div 16) + y mod 16) * 256 +
      (64 * (z div 64) + z mod 64)"
    by (simp only: mult_div_mod_eq)
  show "(x * 65536 + y * 256 + z) div 262144 = x div 4"
    "(x * 65536 + y * 256 + z) div 4096 mod 64 = x mod 4 * 16 + y div 16"
    "(x * 65536 + y * 256 + z) div 64 mod 64 = y mod 16 * 4 + z div 64"
    "(x * 65536 + y * 256 + z) mod 64 = z mod 64"
    unfolding e by (rule sextet_split3 [OF b])+
qed

lemma group2:
  fixes x y :: nat
  assumes "y < 256"
  shows "((x * 256 + y) * 4) div 4096 = x div 4"
    "((x * 256 + y) * 4) div 64 mod 64 = x mod 4 * 16 + y div 16"
    "((x * 256 + y) * 4) mod 64 = y mod 16 * 4"
proof -
  have b: "x mod 4 < 4" "y div 16 < 16" "y mod 16 < 16"
    using assms by simp_all
  have e: "(x * 256 + y) * 4 =
      ((4 * (x div 4) + x mod 4) * 256 + (16 * (y div 16) + y mod 16)) * 4"
    by (simp only: mult_div_mod_eq)
  show "((x * 256 + y) * 4) div 4096 = x div 4"
    "((x * 256 + y) * 4) div 64 mod 64 = x mod 4 * 16 + y div 16"
    "((x * 256 + y) * 4) mod 64 = y mod 16 * 4"
    unfolding e by (rule sextet_split2 [OF b])+
qed

lemma group1:
  fixes x :: nat
  shows "(x * 16) div 64 = x div 4" "(x * 16) mod 64 = x mod 4 * 16"
proof -
  have b: "x mod 4 < 4" by simp
  have e: "x * 16 = (4 * (x div 4) + x mod 4) * 16"
    by (simp only: mult_div_mod_eq)
  show "(x * 16) div 64 = x div 4" "(x * 16) mod 64 = x mod 4 * 16"
    unfolding e by (rule sextet_split1 [OF b])+
qed

lemma unat_byte_lt: "unat (b :: byte) < 256"
  using unsigned_less [of b, where 'a = nat] by simp

lemma unat_byte_mod [simp]: "unat (b :: byte) mod 256 = unat b"
  using unat_byte_lt [of b] by simp

lemma of_char_byte: "(of_char (char_of (unat (b :: byte))) :: nat) = unat b"
  using unat_byte_lt [of b] by simp

lemma map_url_char_alphabet: "map url_char b64_alphabet = b64url_alphabet"
  by (simp add: b64_alphabet_def b64url_alphabet_def url_char_def)

lemma url_char_digit: "n < 64 \<Longrightarrow> url_char (b64_digit n) = b64url_digit n"
proof -
  assume "n < 64"
  then have "url_char (b64_alphabet ! n) = map url_char b64_alphabet ! n"
    by (simp add: length_b64_alphabet)
  then show ?thesis by (simp add: b64_digit_def b64url_digit_def map_url_char_alphabet)
qed

lemma byte_idx:
  "unat (a :: byte) div 4 < 64"
  "unat (a :: byte) mod 4 * 16 + unat (b :: byte) div 16 < 64"
  "unat (a :: byte) mod 4 * 16 < 64"
  "unat (b :: byte) mod 16 * 4 + unat (c :: byte) div 64 < 64"
  "unat (b :: byte) mod 16 * 4 < 64"
  "unat (c :: byte) mod 64 < 64"
  using idx1 [of "char_of (unat a)"] idx2 [of "char_of (unat a)" "char_of (unat b)"]
    idx2' [of "char_of (unat a)"] idx3 [of "char_of (unat b)" "char_of (unat c)"]
    idx3' [of "char_of (unat b)"] idx4 [of "char_of (unat c)"]
  by (simp_all only: of_char_byte)

lemma base64url_unpadded_digits:
  "base64url_unpadded [x] =
     [b64url_digit (unat x div 4), b64url_digit (unat x mod 4 * 16)]"
  "base64url_unpadded [x, y] =
     [b64url_digit (unat x div 4), b64url_digit (unat x mod 4 * 16 + unat y div 16),
      b64url_digit (unat y mod 16 * 4)]"
  "base64url_unpadded (x # y # z # rest) =
     [b64url_digit (unat x div 4), b64url_digit (unat x mod 4 * 16 + unat y div 16),
      b64url_digit (unat y mod 16 * 4 + unat z div 64), b64url_digit (unat z mod 64)]
     @ base64url_unpadded rest"
  by (simp_all only: base64url_unpadded.simps Let_def group1
      group2 [OF unat_byte_lt] group3 [OF unat_byte_lt unat_byte_lt])

text \<open>The code's way to the token and the encoding of the specification agree.\<close>

lemma url_btoa_eq:
  "map url_char (filter (\<lambda>x. x \<noteq> CHR ''='') (btoa (fromCharCode bs))) = base64url_unpadded bs"
proof (induction bs rule: base64url_unpadded.induct)
  case 1
  show ?case by (simp add: fromCharCode_def)
next
  case (2 x)
  show ?case
    by (simp add: fromCharCode_def Let_def byte_idx b64_digit_not_pad
        url_char_digit base64url_unpadded_digits del: base64url_unpadded.simps)
next
  case (3 x y)
  show ?case
    by (simp add: fromCharCode_def Let_def byte_idx b64_digit_not_pad
        url_char_digit base64url_unpadded_digits del: base64url_unpadded.simps)
next
  case (4 x y z rest)
  then have "map url_char (filter (\<lambda>x. x \<noteq> CHR ''='') (btoa (fromCharCode rest))) =
      base64url_unpadded rest" by simp
  then show ?case
    by (simp add: fromCharCode_def Let_def byte_idx b64_digit_not_pad
        url_char_digit base64url_unpadded_digits del: base64url_unpadded.simps)
qed

lemma generateShareToken_eq:
  "generateShareToken rng = base64url_unpadded (map rng [0..<16])"
  by (simp add: generateShareToken_def Let_def url_form url_btoa_eq getRandomValues_def)


lemma btoa_unpadded_eq:
  assumes "length s = length t"
    "filter (\<lambda>x. x \<noteq> CHR ''='') (btoa s) = filter (\<lambda>x. x \<noteq> CHR ''='') (btoa t)"
  shows "btoa s = btoa t"
  using assms
proof (induction s arbitrary: t rule: btoa.induct)
  case 1
  then show ?case by simp
next
  case (2 a)
  then obtain a' where "t = [a']" by (cases t) auto
  with 2 show ?case
    by (simp add: Let_def b64_digit_not_pad b64_idx)
next
  case (3 a b)
  then obtain a' b' where "t = [a', b']"
    by (cases t rule: btoa.cases) auto
  with 3 show ?case
    by (simp add: Let_def b64_digit_not_pad b64_idx)
next
  case (4 a b c rest)
  then obtain a' b' c' rest' where t: "t = a' # b' # c' # rest'"
    by (cases t rule: btoa.cases) auto
  with "4.prems" have len: "length rest = length rest'"
    and dig: "b64_digit (of_char a div 4) = b64_digit (of_char a' div 4)"
      "b64_digit (of_char a mod 4 * 16 + of_char b div 16) =
       b64_digit (of_char a' mod 4 * 16 + of_char b' div 16)"
      "b64_digit (of_char b mod 16 * 4 + of_char c div 64) =
       b64_digit (of_char b' mod 16 * 4 + of_char c' div 64)"
      "b64_digit (of_char c mod 64) = b64_digit (of_char c' mod 64)"
    and rest: "filter (\<lambda>x. x \<noteq> CHR ''='') (btoa rest) =
       filter (\<lambda>x. x \<noteq> CHR ''='') (btoa rest')"
    by (simp_all add: Let_def b64_digit_not_pad b64_idx)
  from "4.IH" [OF refl refl refl len rest] dig show ?case
    by (simp add: t Let_def)
qed

lemma inj_on_url_char: "inj_on url_char (set b64_alphabet)"
proof -
  have "distinct (map url_char b64_alphabet)"
    by (simp add: map_url_char_alphabet b64url_alphabet_def)
  then show ?thesis by (simp add: distinct_map)
qed

lemma unpadded_btoa_subset: "set (filter (\<lambda>x. x \<noteq> CHR ''='') (btoa s)) \<subseteq> set b64_alphabet"
  using set_btoa [of s] by auto

lemma base64url_unpadded_inj:
  assumes "length bs = length cs" "base64url_unpadded bs = base64url_unpadded cs"
  shows "bs = cs"
proof -
  let ?f = "\<lambda>xs. filter (\<lambda>x. x \<noteq> CHR ''='') (btoa (fromCharCode xs))"
  from assms(2) have "map url_char (?f bs) = map url_char (?f cs)"
    by (simp only: url_btoa_eq)
  moreover have "inj_on url_char (set (?f bs) \<union> set (?f cs))"
    using unpadded_btoa_subset by (intro inj_on_subset [OF inj_on_url_char]) blast
  ultimately have "?f bs = ?f cs"
    by (rule inj_on_map_eq_map [THEN iffD1, rotated])
  moreover have "length (fromCharCode bs) = length (fromCharCode cs)"
    using assms(1) by (simp add: fromCharCode_def)
  ultimately have "btoa (fromCharCode bs) = btoa (fromCharCode cs)"
    by (intro btoa_unpadded_eq)
  then show ?thesis
    using btoa_inj fromCharCode_inj by blast
qed

text \<open>
  C6. For every outcome of the random source, that is for every 16 random bytes, the
  share token is the base64url encoding of these 16 bytes with the padding left out, as
  RFC 4648 defines it; so two tokens are equal exactly when the 16 bytes are. The token
  has exactly 22 characters, all of them from the base64url alphabet (letters, digits,
  \<open>-\<close> and \<open>_\<close>), and none of them is \<open>+\<close>, \<open>/\<close> or \<open>=\<close>.
\<close>

theorem generateShareToken_format:
  "generateShareToken rng = base64url_unpadded (map rng [0..<16]) \<and>
   (generateShareToken rng = generateShareToken rng' \<longleftrightarrow>
      map rng [0..<16] = map rng' [0..<16]) \<and>
   length (generateShareToken rng) = 22 \<and>
   set (generateShareToken rng) \<subseteq> set b64url_alphabet \<and>
   CHR ''+'' \<notin> set (generateShareToken rng) \<and>
   CHR ''/'' \<notin> set (generateShareToken rng) \<and>
   CHR ''='' \<notin> set (generateShareToken rng)"
proof -
  have len: "length (generateShareToken rng) = 22"
    by (simp add: generateShareToken_def Let_def url_form length_unpadded_btoa
        fromCharCode_def length_random_array)
  have inj: "generateShareToken rng = generateShareToken rng' \<longleftrightarrow>
      map rng [0..<16] = map rng' [0..<16]"
  proof
    assume "generateShareToken rng = generateShareToken rng'"
    then show "map rng [0..<16] = map rng' [0..<16]"
      by (intro base64url_unpadded_inj) (simp_all add: generateShareToken_eq)
  next
    assume "map rng [0..<16] = map rng' [0..<16]"
    then show "generateShareToken rng = generateShareToken rng'"
      by (simp only: generateShareToken_eq)
  qed
  from set_token [of rng] url_alphabet_clean len inj generateShareToken_eq [of rng]
  show ?thesis by blast
qed

subsection \<open>Password digests\<close>

lemma hashPassword_eq_iff:
  "hashPassword p = hashPassword q \<longleftrightarrow>
   sha256 (TextEncoder_encode p) = sha256 (TextEncoder_encode q)"
  using btoa_inj fromCharCode_inj by (auto simp: hashPassword_def Let_def)

lemma encode_lone_surrogate:
  "TextEncoder_encode [0xD800] = TextEncoder_encode [0xFFFD]"
  by (simp add: TextEncoder_encode_def is_high_surrogate_def is_low_surrogate_def)

text \<open>
  C7, as the specification states it, fails: two different passwords can have the same
  digest. The string made of the single unpaired surrogate U+D800 and the string made of
  U+FFFD are different, the encoder turns both into the bytes EF BF BD, and so the second
  is accepted against the digest of the first.
\<close>

theorem verifyPassword_accepts_other_password:
  "[0xD800] \<noteq> [0xFFFD :: 16 word] \<and> verifyPassword [0xFFFD] (hashPassword [0xD800])"
  using encode_lone_surrogate by (simp add: verifyPassword_def hashPassword_def Let_def)

text \<open>
  C7, amended. Hashing is a function of the password (equal passwords give equal
  digests), a password is accepted against its own digest, and a password \<open>p2\<close> is
  accepted against the digest of \<open>p\<close> exactly when the SHA-256 values of the two UTF-8
  encodings are equal; in particular it is rejected whenever these values differ.
\<close>

theorem hashPassword_verifyPassword:
  "(p = p' \<longrightarrow> hashPassword p = hashPassword p') \<and>
   verifyPassword p (hashPassword p) \<and>
   (verifyPassword p2 (hashPassword p) \<longleftrightarrow>
      sha256 (TextEncoder_encode p2) = sha256 (TextEncoder_encode p))"
  by (simp add: verifyPassword_def Let_def hashPassword_eq_iff)

lemma sha256_a: "sha256 [0x61] =
  [202, 151, 129, 18, 202, 27, 189, 202, 250, 194, 49, 179, 154, 35, 220, 77,
   167, 134, 239, 248, 20, 124, 78, 114, 185, 128, 119, 133, 175, 238, 72, 187]"
  by code_simp

lemma sha256_b: "sha256 [0x62] =
  [62, 35, 232, 22, 0, 57, 89, 74, 51, 137, 79, 101, 100, 225, 177, 52,
   139, 189, 122, 0, 136, 212, 44, 74, 203, 115, 238, 174, 213, 156, 0, 157]"
  by code_simp

lemma encode_ascii: "TextEncoder_encode [0x61] = [0x61]" "TextEncoder_encode [0x62] = [0x62]"
  by (simp_all add: TextEncoder_encode_def is_high_surrogate_def is_low_surrogate_def
      utf8_bytes_def)

theorem hashPassword_verifyPassword_witness:
  "hashPassword [0x61] = hashPassword [0x61] \<and>
   verifyPassword [0x61] (hashPassword [0x61]) \<and>
   \<not> verifyPassword [0x62] (hashPassword [0x61])"
  using hashPassword_verifyPassword [of "[0x61]" "[0x61]" "[0x62]"]
  by (simp add: encode_ascii sha256_a sha256_b)

section \<open>Lemmas about the store and the blocks of the functions\<close>

subsection \<open>The requests, one by one\<close>

lemma auth_getUser_eq:
  "auth_getUser e w =
     ((case fault e GetUser of Some err \<Rightarrow> Inl err | None \<Rightarrow> Inr (session w)),
      w\<lparr>requests := requests w @ [GetUser]\<rparr>)"
  by (simp add: auth_getUser_def perform_def Let_def split: option.split)

lemma select_thread_eq:
  "select_thread e threadId uid w =
     (thread_lookup e threadId uid (threads w),
      w\<lparr>requests := requests w @ [SelectThread threadId uid]\<rparr>)"
  by (simp add: select_thread_def thread_lookup_def perform_def Let_def split: option.split)

lemma insert_thread_eq:
  "insert_thread e row w =
     (case fault e (InsertThread row) of
        Some err \<Rightarrow> (Inl err, w\<lparr>requests := requests w @ [InsertThread row]\<rparr>)
      | None \<Rightarrow> (Inr (), w\<lparr>requests := requests w @ [InsertThread row],
                            threads := threads w @ [row]\<rparr>))"
  by (simp add: insert_thread_def perform_def Let_def split: option.split)

lemma upsert_message_eq:
  "upsert_message e row w =
     (case fault e (UpsertMessage row) of
        Some err \<Rightarrow> (Inl err, w\<lparr>requests := requests w @ [UpsertMessage row]\<rparr>)
      | None \<Rightarrow> (Inr (), w\<lparr>requests := requests w @ [UpsertMessage row],
                            messages := upsert_by_id row (messages w)\<rparr>))"
  by (simp add: upsert_message_def perform_def Let_def split: option.split)

lemma update_thread_last_message_at_eq:
  "update_thread_last_message_at e threadId ts w =
     (case fault e (UpdateThreadLastMessageAt threadId ts) of
        Some err \<Rightarrow> (Inl err, w\<lparr>requests := requests w @ [UpdateThreadLastMessageAt threadId ts]\<rparr>)
      | None \<Rightarrow>
          (Inr (), w\<lparr>requests := requests w @ [UpdateThreadLastMessageAt threadId ts],
                     threads := map (\<lambda>t. if t_id t = threadId then t\<lparr>t_last_message_at := Some ts\<rparr> else t)
                                  (threads w)\<rparr>))"
  by (simp add: update_thread_last_message_at_def perform_def Let_def split: option.split)

lemma insert_file_attachments_eq:
  "insert_file_attachments e rows w =
     (case fault e (InsertFileAttachments rows) of
        Some err \<Rightarrow> (Inl err, w\<lparr>requests := requests w @ [InsertFileAttachments rows]\<rparr>)
      | None \<Rightarrow> (Inr (), w\<lparr>requests := requests w @ [InsertFileAttachments rows],
                            file_attachments := file_attachments w @ rows\<rparr>))"
  by (simp add: insert_file_attachments_def perform_def Let_def split: option.split)



subsection \<open>\<open>ensureThread\<close>\<close>

lemma ensureThread_eq:
  "ensureThread e threadId uid w =
     (case thread_lookup e threadId uid (threads w) of
        Inr t \<Rightarrow> (Inr (), w\<lparr>requests := requests w @ [SelectThread threadId uid]\<rparr>)
      | Inl err \<Rightarrow>
          if code err = ''PGRST116'' then
            (case fault e (InsertThread (new_chat threadId uid)) of
               Some cerr \<Rightarrow>
                 (Inl (StoreError cerr),
                  w\<lparr>requests := requests w @ [SelectThread threadId uid, InsertThread (new_chat threadId uid)]\<rparr>)
             | None \<Rightarrow>
                 (Inr (),
                  w\<lparr>requests := requests w @ [SelectThread threadId uid, InsertThread (new_chat threadId uid)],
                    threads := threads w @ [new_chat threadId uid]\<rparr>))
          else (Inl (StoreError err), w\<lparr>requests := requests w @ [SelectThread threadId uid]\<rparr>))"
  by (simp add: ensureThread_def select_thread_eq insert_thread_eq new_chat_def
      split: sum.split option.split)

lemma ensureThread_fst:
  "fst (ensureThread e threadId uid w) =
     (case thread_lookup e threadId uid (threads w) of
        Inr t \<Rightarrow> Inr ()
      | Inl err \<Rightarrow>
          if code err = ''PGRST116'' then
            (case fault e (InsertThread (new_chat threadId uid)) of
               Some cerr \<Rightarrow> Inl (StoreError cerr)
             | None \<Rightarrow> Inr ())
          else Inl (StoreError err))"
  by (simp add: ensureThread_eq split: sum.split option.split)

lemma ensureThread_requests:
  "requests (snd (ensureThread e threadId uid w)) =
     requests w @ SelectThread threadId uid #
       (if thread_missing e threadId uid (threads w) then [InsertThread (new_chat threadId uid)] else [])"
  by (simp add: ensureThread_eq thread_missing_def split: sum.split option.split)

lemma ensureThread_threads:
  "threads (snd (ensureThread e threadId uid w)) =
     threads w @
       (if thread_missing e threadId uid (threads w) \<and> fault e (InsertThread (new_chat threadId uid)) = None
        then [new_chat threadId uid] else [])"
  by (simp add: ensureThread_eq thread_missing_def split: sum.split option.split)

lemma ensureThread_frame [simp]:
  "session (snd (ensureThread e threadId uid w)) = session w"
  "messages (snd (ensureThread e threadId uid w)) = messages w"
  "file_attachments (snd (ensureThread e threadId uid w)) = file_attachments w"
  "thread_personas (snd (ensureThread e threadId uid w)) = thread_personas w"
  "pinned_messages (snd (ensureThread e threadId uid w)) = pinned_messages w"
  "user_preferences (snd (ensureThread e threadId uid w)) = user_preferences w"
  "warnings (snd (ensureThread e threadId uid w)) = warnings w"
  "dates (snd (ensureThread e threadId uid w)) = dates w"
  "uuids (snd (ensureThread e threadId uid w)) = uuids w"
  by (simp_all add: ensureThread_eq split: sum.split option.split)

subsection \<open>\<open>storeMessage\<close>\<close>

lemma resolveMessageId_eq:
  "resolveMessageId e message w =
     (resolved_id e message (uuids w),
      if valid_message_id (ui_id message) then w else w\<lparr>uuids := Suc (uuids w)\<rparr>)"
  by (auto simp: resolveMessageId_def resolved_id_def new_uuid_def valid_message_id_def
      split: option.split)

lemma createdAt_ISO_eq:
  "createdAt_ISO e message w =
     (if ui_createdAt message = Some InvalidDate then (Inl RangeError, w)
      else (Inr (created_time e message (dates w)),
            if ui_createdAt message = None then w\<lparr>dates := Suc (dates w)\<rparr> else w))"
  by (simp add: createdAt_ISO_def new_Date_ISO_def created_time_def toISOString_def
      split: option.split jsdate.split)

lemma storeMessage_eq:
  "storeMessage e threadId uid message fa w =
     (let w1 = (if valid_message_id (ui_id message) then w else w\<lparr>uuids := Suc (uuids w)\<rparr>);
          row = stored_row e threadId uid message fa w
      in if ui_createdAt message = Some InvalidDate then (Inl RangeError, w1)
         else
           (let w2 = (if ui_createdAt message = None then w1\<lparr>dates := Suc (dates w1)\<rparr> else w1)
            in case fault e (UpsertMessage row) of
                 Some err \<Rightarrow> (Inl (StoreError err), w2\<lparr>requests := requests w2 @ [UpsertMessage row]\<rparr>)
               | None \<Rightarrow>
                   (Inr (resolved_id e message (uuids w)),
                    w2\<lparr>requests := requests w2 @ [UpsertMessage row],
                       messages := upsert_by_id row (messages w2)\<rparr>)))"
  by (simp add: storeMessage_def resolveMessageId_eq createdAt_ISO_eq upsert_message_eq
      stored_row_def Let_def split: option.split)

lemma storeMessage_fst:
  "fst (storeMessage e threadId uid message fa w) =
     (if ui_createdAt message = Some InvalidDate then Inl RangeError
      else case fault e (UpsertMessage (stored_row e threadId uid message fa w)) of
             Some err \<Rightarrow> Inl (StoreError err)
           | None \<Rightarrow> Inr (resolved_id e message (uuids w)))"
  by (simp add: storeMessage_eq Let_def split: option.split)

lemma storeMessage_requests:
  "requests (snd (storeMessage e threadId uid message fa w)) =
     requests w @
       (if ui_createdAt message = Some InvalidDate then []
        else [UpsertMessage (stored_row e threadId uid message fa w)])"
  by (simp add: storeMessage_eq Let_def split: option.split)

lemma storeMessage_messages:
  "messages (snd (storeMessage e threadId uid message fa w)) =
     (if ui_createdAt message \<noteq> Some InvalidDate \<and>
         fault e (UpsertMessage (stored_row e threadId uid message fa w)) = None
      then upsert_by_id (stored_row e threadId uid message fa w) (messages w)
      else messages w)"
  by (simp add: storeMessage_eq Let_def split: option.split)

lemma storeMessage_frame [simp]:
  "session (snd (storeMessage e threadId uid message fa w)) = session w"
  "threads (snd (storeMessage e threadId uid message fa w)) = threads w"
  "file_attachments (snd (storeMessage e threadId uid message fa w)) = file_attachments w"
  "thread_personas (snd (storeMessage e threadId uid message fa w)) = thread_personas w"
  "pinned_messages (snd (storeMessage e threadId uid message fa w)) = pinned_messages w"
  "user_preferences (snd (storeMessage e threadId uid message fa w)) = user_preferences w"
  "warnings (snd (storeMessage e threadId uid message fa w)) = warnings w"
  by (simp_all add: storeMessage_eq Let_def split: option.split)

subsection \<open>\<open>insertFileAttachments\<close>\<close>

lemma attachment_row_of_frame [simp]:
  "session (snd (attachment_row_of e m t u a w)) = session w"
  "threads (snd (attachment_row_of e m t u a w)) = threads w"
  "messages (snd (attachment_row_of e m t u a w)) = messages w"
  "file_attachments (snd (attachment_row_of e m t u a w)) = file_attachments w"
  "thread_personas (snd (attachment_row_of e m t u a w)) = thread_personas w"
  "pinned_messages (snd (attachment_row_of e m t u a w)) = pinned_messages w"
  "user_preferences (snd (attachment_row_of e m t u a w)) = user_preferences w"
  "requests (snd (attachment_row_of e m t u a w)) = requests w"
  "warnings (snd (attachment_row_of e m t u a w)) = warnings w"
  by (simp_all add: attachment_row_of_def new_uuid_def new_Date_ISO_def split: option.split)

lemma attachment_row_of_fst:
  "a_message_id (fst (attachment_row_of e m t u a w)) = m"
  "a_thread_id (fst (attachment_row_of e m t u a w)) = t"
  "a_user_id (fst (attachment_row_of e m t u a w)) = u"
  "a_file_name (fst (attachment_row_of e m t u a w)) = fu_fileName a"
  "a_file_url (fst (attachment_row_of e m t u a w)) = upload_url a"
  by (simp_all add: attachment_row_of_def new_uuid_def new_Date_ISO_def upload_url_def
      split: option.split)

lemma attachment_rows_frame [simp]:
  "session (snd (attachment_rows e m t u fs w)) = session w"
  "threads (snd (attachment_rows e m t u fs w)) = threads w"
  "messages (snd (attachment_rows e m t u fs w)) = messages w"
  "file_attachments (snd (attachment_rows e m t u fs w)) = file_attachments w"
  "thread_personas (snd (attachment_rows e m t u fs w)) = thread_personas w"
  "pinned_messages (snd (attachment_rows e m t u fs w)) = pinned_messages w"
  "user_preferences (snd (attachment_rows e m t u fs w)) = user_preferences w"
  "requests (snd (attachment_rows e m t u fs w)) = requests w"
  "warnings (snd (attachment_rows e m t u fs w)) = warnings w"
  by (induction fs arbitrary: w; simp add: case_prod_beta)+

lemma attachment_rows_fst:
  "map (\<lambda>r. (a_message_id r, a_thread_id r, a_user_id r, a_file_name r, a_file_url r))
     (fst (attachment_rows e m t u fs w)) =
   map (\<lambda>a. (m, t, u, fu_fileName a, upload_url a)) fs"
  by (induction fs arbitrary: w) (simp_all add: case_prod_beta attachment_row_of_fst)

lemma warn_skipped_frame [simp]:
  "session (foldl (\<lambda>w a. console_warn (skip_warning a) w) w xs) = session w"
  "threads (foldl (\<lambda>w a. console_warn (skip_warning a) w) w xs) = threads w"
  "messages (foldl (\<lambda>w a. console_warn (skip_warning a) w) w xs) = messages w"
  "file_attachments (foldl (\<lambda>w a. console_warn (skip_warning a) w) w xs) = file_attachments w"
  "thread_personas (foldl (\<lambda>w a. console_warn (skip_warning a) w) w xs) = thread_personas w"
  "pinned_messages (foldl (\<lambda>w a. console_warn (skip_warning a) w) w xs) = pinned_messages w"
  "user_preferences (foldl (\<lambda>w a. console_warn (skip_warning a) w) w xs) = user_preferences w"
  "requests (foldl (\<lambda>w a. console_warn (skip_warning a) w) w xs) = requests w"
  "warnings (foldl (\<lambda>w a. console_warn (skip_warning a) w) w xs) = warnings w @ map skip_warning xs"
  by (induction xs arbitrary: w; simp add: console_warn_def)+

lemma attachmentsToInsert_frame [simp]:
  "session (snd (attachmentsToInsert e m t u fs w)) = session w"
  "threads (snd (attachmentsToInsert e m t u fs w)) = threads w"
  "messages (snd (attachmentsToInsert e m t u fs w)) = messages w"
  "file_attachments (snd (attachmentsToInsert e m t u fs w)) = file_attachments w"
  "thread_personas (snd (attachmentsToInsert e m t u fs w)) = thread_personas w"
  "pinned_messages (snd (attachmentsToInsert e m t u fs w)) = pinned_messages w"
  "user_preferences (snd (attachmentsToInsert e m t u fs w)) = user_preferences w"
  "requests (snd (attachmentsToInsert e m t u fs w)) = requests w"
  "warnings (snd (attachmentsToInsert e m t u fs w)) =
     warnings w @ map skip_warning (filter (\<lambda>a. \<not> has_url a) fs)"
  by (simp_all add: attachmentsToInsert_def Let_def)

lemma attachmentsToInsert_Nil [simp]: "fst (attachmentsToInsert e m t u [] w) = []"
  by (simp add: attachmentsToInsert_def)

lemma upload_rows_proj:
  "map (\<lambda>r. (a_message_id r, a_thread_id r, a_user_id r, a_file_name r, a_file_url r))
     (upload_rows e m t u fa w) =
   map (\<lambda>a. (m, t, u, fu_fileName a, upload_url a))
     (filter has_url (case fa of None \<Rightarrow> [] | Some fs \<Rightarrow> fs))"
  by (simp add: upload_rows_def attachmentsToInsert_def Let_def attachment_rows_fst
      split: option.split)

lemma insertFileAttachments_frame [simp]:
  "session (insertFileAttachments e m t u fa w) = session w"
  "threads (insertFileAttachments e m t u fa w) = threads w"
  "messages (insertFileAttachments e m t u fa w) = messages w"
  "thread_personas (insertFileAttachments e m t u fa w) = thread_personas w"
  "pinned_messages (insertFileAttachments e m t u fa w) = pinned_messages w"
  "user_preferences (insertFileAttachments e m t u fa w) = user_preferences w"
  by (simp_all add: insertFileAttachments_def insert_file_attachments_eq case_prod_beta
      split: option.split)

lemma insertFileAttachments_requests:
  "requests (insertFileAttachments e m t u fa w) =
     requests w @
       (if upload_rows e m t u fa w \<noteq> [] then [InsertFileAttachments (upload_rows e m t u fa w)]
        else [])"
  by (simp add: insertFileAttachments_def insert_file_attachments_eq upload_rows_def
      case_prod_beta split: option.split)

lemma insertFileAttachments_file_attachments:
  "file_attachments (insertFileAttachments e m t u fa w) =
     file_attachments w @
       (if fault e (InsertFileAttachments (upload_rows e m t u fa w)) = None
        then upload_rows e m t u fa w else [])"
  by (simp add: insertFileAttachments_def insert_file_attachments_eq upload_rows_def
      case_prod_beta split: option.split)

lemma insertFileAttachments_warnings:
  "warnings (insertFileAttachments e m t u fa w) =
     warnings w @
       map skip_warning (filter (\<lambda>a. \<not> has_url a) (case fa of None \<Rightarrow> [] | Some fs \<Rightarrow> fs))"
  by (simp add: insertFileAttachments_def insert_file_attachments_eq case_prod_beta
      split: option.split)

subsection \<open>\<open>touchThread\<close>\<close>

lemma touchThread_eq:
  "touchThread e threadId message w =
     (if ui_createdAt message = Some InvalidDate then (Inl RangeError, w)
      else
        (let ts = created_time e message (dates w);
             w1 = (if ui_createdAt message = None then w\<lparr>dates := Suc (dates w)\<rparr> else w)
         in case fault e (UpdateThreadLastMessageAt threadId ts) of
              Some err \<Rightarrow>
                (Inl (StoreError err),
                 w1\<lparr>requests := requests w1 @ [UpdateThreadLastMessageAt threadId ts]\<rparr>)
            | None \<Rightarrow>
                (Inr (),
                 w1\<lparr>requests := requests w1 @ [UpdateThreadLastMessageAt threadId ts],
                    threads := map (\<lambda>t. if t_id t = threadId then t\<lparr>t_last_message_at := Some ts\<rparr> else t)
                                 (threads w1)\<rparr>)))"
  by (simp add: touchThread_def createdAt_ISO_eq update_thread_last_message_at_eq Let_def
      split: option.split)

lemma touchThread_fst:
  "fst (touchThread e threadId message w) =
     (if ui_createdAt message = Some InvalidDate then Inl RangeError
      else case fault e (UpdateThreadLastMessageAt threadId (created_time e message (dates w))) of
             Some err \<Rightarrow> Inl (StoreError err)
           | None \<Rightarrow> Inr ())"
  by (simp add: touchThread_eq Let_def split: option.split)

lemma touchThread_requests:
  "requests (snd (touchThread e threadId message w)) =
     requests w @
       (if ui_createdAt message = Some InvalidDate then []
        else [UpdateThreadLastMessageAt threadId (created_time e message (dates w))])"
  by (simp add: touchThread_eq Let_def split: option.split)

lemma touchThread_threads:
  "map thread_key (threads (snd (touchThread e threadId message w))) = map thread_key (threads w)"
  by (simp add: touchThread_eq Let_def thread_key_def comp_def split: option.split)

lemma touchThread_frame [simp]:
  "session (snd (touchThread e threadId message w)) = session w"
  "messages (snd (touchThread e threadId message w)) = messages w"
  "file_attachments (snd (touchThread e threadId message w)) = file_attachments w"
  "thread_personas (snd (touchThread e threadId message w)) = thread_personas w"
  "pinned_messages (snd (touchThread e threadId message w)) = pinned_messages w"
  "user_preferences (snd (touchThread e threadId message w)) = user_preferences w"
  "warnings (snd (touchThread e threadId message w)) = warnings w"
  by (simp_all add: touchThread_eq Let_def split: option.split)

subsection \<open>\<open>createMessage\<close> as a whole\<close>

lemma createMessage_unauth:
  assumes "user_of (fst (auth_getUser e w)) = None"
  shows "createMessage e threadId message fa w =
           (Inl NotAuthenticated, w\<lparr>requests := requests w @ [GetUser]\<rparr>)"
  using assms by (simp add: createMessage_def case_prod_beta) (simp add: auth_getUser_eq)

lemma createMessage_auth:
  assumes "session w = Some uid" "fault e GetUser = None"
  shows "createMessage e threadId message fa w =
     (let p1 = ensureThread e threadId uid (w\<lparr>requests := requests w @ [GetUser]\<rparr>) in
      case fst p1 of
        Inl err \<Rightarrow> (Inl err, snd p1)
      | Inr _ \<Rightarrow>
          (let p2 = storeMessage e threadId uid message fa (snd p1) in
           case fst p2 of
             Inl err \<Rightarrow> (Inl err, snd p2)
           | Inr messageId \<Rightarrow>
               touchThread e threadId message
                 (insertFileAttachments e messageId threadId uid fa (snd p2))))"
  using assms
  by (simp add: createMessage_def auth_getUser_eq user_of_def case_prod_beta Let_def
      split: sum.split)

lemma thread_lookup_cases:
  obtains (found) row where "thread_lookup e t u ths = Inr row" "\<not> thread_missing e t u ths"
  | (missing) err where "thread_lookup e t u ths = Inl err" "code err = ''PGRST116''"
      "thread_missing e t u ths"
  | (failed) err where "thread_lookup e t u ths = Inl err" "code err \<noteq> ''PGRST116''"
      "\<not> thread_missing e t u ths"
  by (cases "thread_lookup e t u ths") (auto simp: thread_missing_def)

lemma stored_row_frame [simp]:
  "stored_row e t u m fa (w\<lparr>requests := rq\<rparr>) = stored_row e t u m fa w"
  "stored_row e t u m fa (snd (ensureThread e t' u' w)) = stored_row e t u m fa w"
  by (simp_all add: stored_row_def)

lemma m_id_stored_row [simp]: "m_id (stored_row e t u m fa w) = resolved_id e m (uuids w)"
  by (simp add: stored_row_def)

text \<open>The messages table after a call: untouched, or the upsert of the row of this call.\<close>

lemma createMessage_messages:
  "messages (snd (createMessage e threadId message fa w)) = messages w \<or>
   (\<exists>row. m_id row = resolved_id e message (uuids w) \<and>
      messages (snd (createMessage e threadId message fa w)) = upsert_by_id row (messages w))"
proof (cases "user_of (fst (auth_getUser e w))")
  case None
  then show ?thesis by (simp add: createMessage_unauth)
next
  case (Some uid)
  then have auth: "session w = Some uid" "fault e GetUser = None"
    by (auto simp: auth_getUser_eq user_of_def split: option.splits)
  show ?thesis
    by (simp add: createMessage_auth [OF auth] Let_def storeMessage_messages storeMessage_fst
        split: sum.split option.split)
      (metis m_id_stored_row)
qed

lemma count_id_map_same:
  assumes "\<And>r. m_id (f r) = m_id r"
  shows "count_id i (map f ms) = count_id i ms"
  using assms by (induction ms) (simp_all add: count_id_def)

lemma count_id_zero: "i \<notin> set (map m_id ms) \<Longrightarrow> count_id i ms = 0"
  by (induction ms) (auto simp: count_id_def)

lemma count_id_pos: "i \<in> set (map m_id ms) \<Longrightarrow> 0 < count_id i ms"
  by (induction ms) (auto simp: count_id_def)

lemma count_id_upsert:
  "count_id i (upsert_by_id row ms) =
     (if m_id row = i then max 1 (count_id i ms) else count_id i ms)"
proof (cases "m_id row \<in> set (map m_id ms)")
  case True
  have "count_id i (map (\<lambda>r. if m_id r = m_id row then row\<lparr>m_updated_at := m_updated_at r\<rparr> else r) ms)
        = count_id i ms"
    by (rule count_id_map_same) simp
  with True count_id_pos [OF True] show ?thesis
    by (auto simp: upsert_by_id_def)
next
  case False
  then show ?thesis
    using count_id_zero [OF False]
    by (auto simp: upsert_by_id_def count_id_def)
qed

lemma createMessage_session [simp]:
  "session (snd (createMessage e threadId message fa w)) = session w"
proof (cases "user_of (fst (auth_getUser e w))")
  case None
  then show ?thesis by (simp add: createMessage_unauth)
next
  case (Some uid)
  then have auth: "session w = Some uid" "fault e GetUser = None"
    by (auto simp: auth_getUser_eq user_of_def split: option.splits)
  show ?thesis
    by (simp add: createMessage_auth [OF auth] Let_def split: sum.split)
qed

lemma createMessage_success:
  assumes "fst (createMessage e threadId message fa w) = Inr ()"
  obtains uid where "session w = Some uid" "fault e GetUser = None"
    "ui_createdAt message \<noteq> Some InvalidDate"
    "fst (ensureThread e threadId uid (w\<lparr>requests := requests w @ [GetUser]\<rparr>)) = Inr ()"
    "fault e (UpsertMessage (stored_row e threadId uid message fa w)) = None"
    "messages (snd (createMessage e threadId message fa w)) =
       upsert_by_id (stored_row e threadId uid message fa w) (messages w)"
proof (cases "user_of (fst (auth_getUser e w))")
  case None
  with assms show ?thesis by (simp add: createMessage_unauth)
next
  case (Some uid)
  then have auth: "session w = Some uid" "fault e GetUser = None"
    by (auto simp: auth_getUser_eq user_of_def split: option.splits)
  from assms have
    "ui_createdAt message \<noteq> Some InvalidDate \<and>
     fst (ensureThread e threadId uid (w\<lparr>requests := requests w @ [GetUser]\<rparr>)) = Inr () \<and>
     fault e (UpsertMessage (stored_row e threadId uid message fa w)) = None \<and>
     messages (snd (createMessage e threadId message fa w)) =
       upsert_by_id (stored_row e threadId uid message fa w) (messages w)"
    by (simp add: createMessage_auth [OF auth] Let_def storeMessage_fst storeMessage_messages
        split: sum.splits option.splits if_splits)
  with auth that show ?thesis by blast
qed

lemma single_Inl: "single rows = Inl err \<Longrightarrow> code err = ''PGRST116''"
  by (auto simp: single_def not_found_def split: list.splits)

lemma thread_lookup_no_fault:
  "fault e (SelectThread t u) = None \<Longrightarrow> thread_lookup e t u ths = Inl err \<Longrightarrow>
   code err = ''PGRST116''"
  by (auto simp: thread_lookup_def dest: single_Inl)

lemma createMessage_no_faults:
  assumes "session w = Some uid" "\<And>r. fault e r = None"
    "ui_createdAt message \<noteq> Some InvalidDate"
  shows "fst (createMessage e threadId message fa w) = Inr ()"
proof -
  have "code err = ''PGRST116''" if "thread_lookup e threadId uid (threads w) = Inl err" for err
    using that assms(2) by (rule thread_lookup_no_fault [rotated])
  with assms show ?thesis
    by (auto simp: createMessage_auth [of w uid e] Let_def ensureThread_fst storeMessage_fst
        touchThread_fst split: sum.split)
qed

lemma valid_resolved_id:
  "valid_message_id (ui_id message) \<Longrightarrow> ui_id message = Some (resolved_id e message n)"
  by (auto simp: resolved_id_def valid_message_id_def split: option.splits)

lemma uuid_regex_length: "uuid_regex s \<Longrightarrow> length s = 36"
  by (auto simp: uuid_regex_def)


lemma issued_append [simp]: "requests w' = requests w @ xs \<Longrightarrow> issued w w' = xs"
  by (simp add: issued_def)

lemma createMessage_requests:
  assumes auth: "session w = Some uid" "fault e GetUser = None"
  shows "\<exists>rest.
     requests (snd (createMessage e threadId message fa w)) =
       requests w @ [GetUser, SelectThread threadId uid] @
         (if thread_missing e threadId uid (threads w)
          then [InsertThread (new_chat threadId uid)] else []) @ rest \<and>
     (\<forall>r \<in> set rest. \<not> is_InsertThread r) \<and>
     (fst (ensureThread e threadId uid (w\<lparr>requests := requests w @ [GetUser]\<rparr>)) \<noteq> Inr ()
        \<longrightarrow> rest = []) \<and>
     (fst (createMessage e threadId message fa w) = Inr ()
        \<longrightarrow> UpsertMessage (stored_row e threadId uid message fa w) \<in> set rest)"
  by (simp add: createMessage_auth [OF auth] Let_def ensureThread_requests ensureThread_fst
      storeMessage_requests storeMessage_fst touchThread_requests touchThread_fst
      insertFileAttachments_requests is_InsertThread_def
      split: sum.split option.split)

lemma createMessage_threads:
  assumes auth: "session w = Some uid" "fault e GetUser = None"
  shows "map thread_key (threads (snd (createMessage e threadId message fa w))) =
     map thread_key (threads w) @
       (if thread_missing e threadId uid (threads w) \<and>
           fault e (InsertThread (new_chat threadId uid)) = None
        then [(threadId, ''New Chat'', uid)] else [])"
  by (simp add: createMessage_auth [OF auth] Let_def ensureThread_threads ensureThread_fst
      touchThread_threads thread_key_def new_chat_def
      split: sum.split option.split)

lemma thread_lookup_absent:
  assumes "fault e (SelectThread t u) = None"
    "\<forall>r \<in> set ths. \<not> (t_id r = t \<and> t_user_id r = u)"
  shows "thread_missing e t u ths"
proof -
  have "filter (\<lambda>r. t_user_id r = u) (filter (\<lambda>r. t_id r = t) ths) = []"
    using assms(2) by (auto simp: filter_empty_conv)
  with assms(1) show ?thesis
    by (simp add: thread_missing_def thread_lookup_def single_def not_found_def)
qed

lemma createMessage_ensure_failed:
  assumes auth: "session w = Some uid" "fault e GetUser = None"
    and "fst (ensureThread e threadId uid (w\<lparr>requests := requests w @ [GetUser]\<rparr>)) = Inl err"
  shows "fst (createMessage e threadId message fa w) = Inl err"
    "messages (snd (createMessage e threadId message fa w)) = messages w"
    "threads (snd (createMessage e threadId message fa w)) =
       threads (snd (ensureThread e threadId uid (w\<lparr>requests := requests w @ [GetUser]\<rparr>)))"
  using assms(3) by (simp_all add: createMessage_auth [OF auth] Let_def)


lemma upsert_by_id_mem: "\<exists>r \<in> set (upsert_by_id row ms). m_id r = m_id row"
proof -
  have "0 < count_id (m_id row) (upsert_by_id row ms)"
    by (simp add: count_id_upsert)
  then show ?thesis
    by (auto simp: count_id_def filter_empty_conv)
qed

lemma createMessage_upserts:
  "\<exists>xs. requests (snd (createMessage e threadId message fa w)) = requests w @ xs \<and>
        (\<forall>row. UpsertMessage row \<in> set xs \<longrightarrow> m_id row = resolved_id e message (uuids w))"
proof (cases "user_of (fst (auth_getUser e w))")
  case None
  then show ?thesis by (simp add: createMessage_unauth)
next
  case (Some uid)
  then have auth: "session w = Some uid" "fault e GetUser = None"
    by (auto simp: auth_getUser_eq user_of_def split: option.splits)
  show ?thesis
    by (simp add: createMessage_auth [OF auth] Let_def ensureThread_requests ensureThread_fst
        storeMessage_requests storeMessage_fst touchThread_requests touchThread_fst
        insertFileAttachments_requests
        split: sum.split option.split)
qed

lemma createMessage_rest_ok:
  assumes auth: "session w = Some uid"
    and others: "\<And>r. \<not> is_InsertFileAttachments r \<Longrightarrow> fault e r = None"
    and date: "ui_createdAt message \<noteq> Some InvalidDate"
  shows "createMessage e threadId message fa w =
     touchThread e threadId message
       (insertFileAttachments e (resolved_id e message (uuids w)) threadId uid fa
          (snd (storeMessage e threadId uid message fa
             (snd (ensureThread e threadId uid (w\<lparr>requests := requests w @ [GetUser]\<rparr>))))))"
    and "fst (ensureThread e threadId uid (w\<lparr>requests := requests w @ [GetUser]\<rparr>)) = Inr ()"
    and "fault e (UpsertMessage (stored_row e threadId uid message fa w)) = None"
proof -
  have g: "fault e GetUser = None" and s: "fault e (SelectThread threadId uid) = None"
    and i: "fault e (InsertThread (new_chat threadId uid)) = None"
    and u: "fault e (UpsertMessage (stored_row e threadId uid message fa w)) = None"
    by (simp_all add: others is_InsertFileAttachments_def)
  have "code err = ''PGRST116''" if "thread_lookup e threadId uid (threads w) = Inl err" for err
    using s that by (rule thread_lookup_no_fault)
  then show en: "fst (ensureThread e threadId uid (w\<lparr>requests := requests w @ [GetUser]\<rparr>)) = Inr ()"
    using i by (auto simp: ensureThread_fst split: sum.split)
  show "fault e (UpsertMessage (stored_row e threadId uid message fa w)) = None" by (rule u)
  from en u date show "createMessage e threadId message fa w =
     touchThread e threadId message
       (insertFileAttachments e (resolved_id e message (uuids w)) threadId uid fa
          (snd (storeMessage e threadId uid message fa
             (snd (ensureThread e threadId uid (w\<lparr>requests := requests w @ [GetUser]\<rparr>))))))"
    by (simp add: createMessage_auth [OF auth g] Let_def storeMessage_fst)
qed


subsection \<open>\<open>isPinned\<close>\<close>

lemma select_pinned_message_eq:
  "select_pinned_message e uid threadId messageId w =
     ((case fault e (SelectPinnedMessage uid threadId messageId) of
         Some err \<Rightarrow> Inl err
       | None \<Rightarrow>
           single (filter (\<lambda>p. pin_message_id p = messageId)
                     (filter (\<lambda>p. pin_thread_id p = threadId)
                        (filter (\<lambda>p. pin_user_id p = uid) (pinned_messages w))))),
      w\<lparr>requests := requests w @ [SelectPinnedMessage uid threadId messageId]\<rparr>)"
  by (simp add: select_pinned_message_def perform_def Let_def split: option.split)

subsection \<open>\<open>getUserPreferences\<close>\<close>

lemma select_user_preferences_eq:
  "select_user_preferences e uid w =
     ((case fault e (SelectUserPreferences uid) of
         Some err \<Rightarrow> Inl err
       | None \<Rightarrow> single (filter (\<lambda>p. pref_user_id p = uid) (user_preferences w))),
      w\<lparr>requests := requests w @ [SelectUserPreferences uid]\<rparr>)"
  by (simp add: select_user_preferences_def perform_def Let_def split: option.split)


subsection \<open>\<open>updateMessageInDatabase\<close>\<close>


lemma select_message_content_eq:
  "select_message_content e messageId w =
     ((case fault e (SelectMessageContent messageId) of
         Some err \<Rightarrow> Inl err
       | None \<Rightarrow> map_sum (\<lambda>err. err) m_content
                   (single (filter (\<lambda>m. m_id m = messageId) (messages w)))),
      w\<lparr>requests := requests w @ [SelectMessageContent messageId]\<rparr>)"
  by (simp add: select_message_content_def perform_def Let_def split: option.split)







subsection \<open>\<open>verifyUpdate\<close>\<close>

lemma verifyUpdate_messages [simp]:
  "messages (snd (verifyUpdate e messageId newContent r w)) = messages w"
  by (simp add: verifyUpdate_def select_message_content_eq case_prod_beta split: sum.split)



subsection \<open>\<open>applyUpdate\<close>\<close>



lemma update_content_requests [simp]:
  "requests (snd (update_content hit c ts w)) = requests w"
  by (simp add: update_content_def Let_def)





subsection \<open>\<open>setThreadPersona\<close>\<close>

lemma delete_thread_persona_eq:
  "delete_thread_persona e threadId uid w =
     (case fault e (DeleteThreadPersona threadId uid) of
        Some err \<Rightarrow> (Inl err, w\<lparr>requests := requests w @ [DeleteThreadPersona threadId uid]\<rparr>)
      | None \<Rightarrow>
          (Inr (),
           w\<lparr>requests := requests w @ [DeleteThreadPersona threadId uid],
             thread_personas :=
               filter (\<lambda>p. \<not> (tp_thread_id p = threadId \<and> tp_user_id p = uid))
                 (thread_personas w)\<rparr>))"
  by (simp add: delete_thread_persona_def perform_def Let_def split: option.split)

lemma insert_thread_persona_eq:
  "insert_thread_persona e row w =
     (case fault e (InsertThreadPersona row) of
        Some err \<Rightarrow> (Inl err, w\<lparr>requests := requests w @ [InsertThreadPersona row]\<rparr>)
      | None \<Rightarrow>
          (Inr row,
           w\<lparr>requests := requests w @ [InsertThreadPersona row],
             thread_personas := thread_personas w @ [row]\<rparr>))"
  by (simp add: insert_thread_persona_def perform_def Let_def single_def split: option.split)

lemma setThreadPersona_success:
  assumes "setThreadPersona e threadId personaId w = (Inr row, w')"
  shows "\<exists>uid. session w = Some uid \<and>
     row = \<lparr>tp_thread_id = threadId, tp_persona_id = personaId, tp_user_id = uid\<rparr> \<and>
     personas_of threadId uid (thread_personas w') =
       (if fault e (DeleteThreadPersona threadId uid) = None then []
        else personas_of threadId uid (thread_personas w)) @ [row]"
  using assms
  by (auto simp: setThreadPersona_def auth_getUser_eq user_of_def ensureThread_eq
      delete_thread_persona_eq insert_thread_persona_eq personas_of_def
      split: option.splits sum.splits if_splits)

section \<open>Properties of the data-access functions\<close>

subsection \<open>Retrying \<open>createMessage\<close>\<close>

lemma filter_id_upsert:
  "filter (\<lambda>r. m_id r = m_id row) (upsert_by_id row ms) =
     (if m_id row \<in> set (map m_id ms)
      then map (\<lambda>r. row\<lparr>m_updated_at := m_updated_at r\<rparr>) (filter (\<lambda>r. m_id r = m_id row) ms)
      else [row])"
proof -
  have "filter (\<lambda>r. m_id r = i)
          (map (\<lambda>r. if m_id r = i then row\<lparr>m_updated_at := m_updated_at r\<rparr> else r) ms) =
        map (\<lambda>r. row\<lparr>m_updated_at := m_updated_at r\<rparr>) (filter (\<lambda>r. m_id r = i) ms)"
    if "m_id row = i" for i
    using that by (induction ms) simp_all
  moreover have "filter (\<lambda>r. m_id r = m_id row) ms = []" if "m_id row \<notin> set (map m_id ms)"
    using that by (force simp: filter_empty_conv image_iff)
  ultimately show ?thesis
    by (simp add: upsert_by_id_def)
qed

text \<open>
  C1. A message with a well-formed id is created, in a store that holds at most one
  message row with that id, and the call returns. Then exactly one row has the id; and
  after the same call is made again, whatever then happens to its requests, still exactly
  one row has the id. The second call raises no error when no request of its own fails;
  and when it returns, the one row is the row of the message: its thread, role, content
  and parts. The upsert has replaced the row, not added one.
\<close>

theorem createMessage_idempotent:
  assumes id: "ui_id message = Some mid" "uuid_regex mid"
    and pk: "count_id mid (messages w) \<le> 1"
    and first: "createMessage e threadId message fileAttachments w = (Inr (), w1)"
    and second: "createMessage e' threadId message fileAttachments w1 = (res, w2)"
  shows "count_id mid (messages w1) = 1 \<and>
         count_id mid (messages w2) = 1 \<and>
         ((\<forall>r. fault e' r = None) \<longrightarrow> res = Inr ()) \<and>
         (res = Inr () \<longrightarrow>
            (\<exists>row. filter (\<lambda>r. m_id r = mid) (messages w2) = [row] \<and>
                   m_thread_id row = threadId \<and>
                   m_role row = ui_role message \<and>
                   m_content row = ui_content message \<and>
                   m_parts row = updatedParts message fileAttachments))"
proof -
  from id have valid: "valid_message_id (ui_id message)"
    using uuid_regex_length [of mid] by (auto simp: valid_message_id_def)
  then have rid: "resolved_id e message n = mid" "resolved_id e' message n = mid" for n
    using valid_resolved_id [of message] id by simp_all
  from first have ok: "fst (createMessage e threadId message fileAttachments w) = Inr ()"
    and w1: "w1 = snd (createMessage e threadId message fileAttachments w)" by simp_all
  from second have res: "res = fst (createMessage e' threadId message fileAttachments w1)"
    and w2: "w2 = snd (createMessage e' threadId message fileAttachments w1)" by simp_all
  from ok obtain uid where auth: "session w = Some uid"
    and date: "ui_createdAt message \<noteq> Some InvalidDate"
    and msgs: "messages (snd (createMessage e threadId message fileAttachments w)) =
       upsert_by_id (stored_row e threadId uid message fileAttachments w) (messages w)"
    by (rule createMessage_success)
  from msgs pk have one: "count_id mid (messages w1) = 1"
    by (simp add: w1 count_id_upsert rid)
  have two: "count_id mid (messages w2) = 1"
    using createMessage_messages [of e' threadId message fileAttachments w1] one
    by (auto simp: w2 count_id_upsert rid)
  have three: "res = Inr ()" if "\<forall>r. fault e' r = None"
    unfolding res using that auth date
    by (intro createMessage_no_faults [of w1 uid]) (simp_all add: w1)
  have four: "\<exists>row. filter (\<lambda>r. m_id r = mid) (messages w2) = [row] \<and>
                   m_thread_id row = threadId \<and>
                   m_role row = ui_role message \<and>
                   m_content row = ui_content message \<and>
                   m_parts row = updatedParts message fileAttachments"
    if "res = Inr ()"
  proof -
    let ?row = "\<lambda>u. stored_row e' threadId u message fileAttachments w1"
    from that have "fst (createMessage e' threadId message fileAttachments w1) = Inr ()"
      by (simp add: res)
    then obtain uid' where m2: "messages w2 = upsert_by_id (?row uid') (messages w1)"
      unfolding w2 by (rule createMessage_success)
    have mid: "m_id (?row uid') = mid" by (simp add: rid)
    from one obtain r0 where r0: "filter (\<lambda>r. m_id r = mid) (messages w1) = [r0]"
      by (auto simp: count_id_def length_Suc_conv)
    then have "r0 \<in> set (filter (\<lambda>r. m_id r = mid) (messages w1))" by simp
    then have "mid \<in> set (map m_id (messages w1))" by auto
    with filter_id_upsert [of "?row uid'" "messages w1"] r0 mid m2
    have "filter (\<lambda>r. m_id r = mid) (messages w2) = [(?row uid')\<lparr>m_updated_at := m_updated_at r0\<rparr>]"
      by simp
    then show ?thesis by (simp add: stored_row_def)
  qed
  from one two three four show ?thesis by blast
qed

lemma uuid_regex_hello_id: "uuid_regex hello_id"
  by code_simp

theorem createMessage_idempotent_witness:
  "count_id hello_id
     (messages (snd (createMessage env_ok ''t1'' hello None
        (snd (createMessage env_ok ''t1'' hello None world_u1))))) = 1 \<and>
   fst (createMessage env_ok ''t1'' hello None
          (snd (createMessage env_ok ''t1'' hello None world_u1))) = Inr () \<and>
   (\<exists>row. filter (\<lambda>r. m_id r = hello_id)
            (messages (snd (createMessage env_ok ''t1'' hello None
               (snd (createMessage env_ok ''t1'' hello None world_u1))))) = [row] \<and>
          m_content row = ''hello'')"
proof -
  let ?w1 = "snd (createMessage env_ok ''t1'' hello None world_u1)"
  have "fst (createMessage env_ok ''t1'' hello None world_u1) = Inr ()"
    by (simp add: createMessage_no_faults world_u1_def env_ok_def hello_def)
  then have first: "createMessage env_ok ''t1'' hello None world_u1 = (Inr (), ?w1)"
    by (simp add: prod_eq_iff)
  have second: "createMessage env_ok ''t1'' hello None ?w1 =
      (fst (createMessage env_ok ''t1'' hello None ?w1),
       snd (createMessage env_ok ''t1'' hello None ?w1))" by simp
  have id: "ui_id hello = Some hello_id" by (simp add: hello_def)
  have pk: "count_id hello_id (messages world_u1) \<le> 1"
    by (simp add: world_u1_def count_id_def)
  have nofault: "\<forall>r. fault env_ok r = None" by (simp add: env_ok_def)
  have content: "ui_content hello = ''hello''" by (simp add: hello_def)
  from createMessage_idempotent [OF id uuid_regex_hello_id pk first second] nofault content
  show ?thesis by metis
qed

subsection \<open>\<open>createMessage\<close> and the thread row\<close>

text \<open>
  C2. A signed-in user calls \<open>createMessage\<close>.
  If the thread lookup resolves to the "not found" error (as it does when the store
  answers and holds no thread row with that id and user), the call inserts the minimal
  row \<open>{id, title: "New Chat", user_id}\<close> exactly once, as its third request and before
  any upsert of the message; when that insert succeeds the table has gained exactly
  that row, and when it fails its error is thrown and nothing else is written.
  If the lookup finds the thread, no insert into \<open>threads\<close> is issued and the table
  keeps its rows.
  If the lookup fails with any other error, that error is thrown, the lookup was the
  last request, and the \<open>messages\<close> table is unchanged.
\<close>

theorem createMessage_ensures_thread:
  assumes auth: "session w = Some uid" "fault e GetUser = None"
    and call: "createMessage e threadId message fileAttachments w = (res, w')"
  shows
    "(fault e (SelectThread threadId uid) = None \<and>
      (\<forall>r \<in> set (threads w). \<not> (t_id r = threadId \<and> t_user_id r = uid))
        \<longrightarrow> thread_missing e threadId uid (threads w)) \<and>
     (thread_missing e threadId uid (threads w) \<longrightarrow>
        (\<exists>rest.
           issued w w' =
             [GetUser, SelectThread threadId uid, InsertThread (new_chat threadId uid)] @ rest \<and>
           (\<forall>r \<in> set rest. \<not> is_InsertThread r) \<and>
           (res = Inr () \<longrightarrow> (\<exists>row. UpsertMessage row \<in> set rest))) \<and>
        (case fault e (InsertThread (new_chat threadId uid)) of
           None \<Rightarrow>
             map thread_key (threads w') =
               map thread_key (threads w) @ [(threadId, ''New Chat'', uid)]
         | Some cerr \<Rightarrow>
             res = Inl (StoreError cerr) \<and> threads w' = threads w \<and> messages w' = messages w)) \<and>
     (\<forall>existing. thread_lookup e threadId uid (threads w) = Inr existing \<longrightarrow>
        (\<forall>r \<in> set (issued w w'). \<not> is_InsertThread r) \<and>
        map thread_key (threads w') = map thread_key (threads w)) \<and>
     (\<forall>err. thread_lookup e threadId uid (threads w) = Inl err \<and> code err \<noteq> ''PGRST116'' \<longrightarrow>
        res = Inl (StoreError err) \<and>
        issued w w' = [GetUser, SelectThread threadId uid] \<and>
        messages w' = messages w)"
proof -
  let ?w0 = "w\<lparr>requests := requests w @ [GetUser]\<rparr>"
  from call have res: "res = fst (createMessage e threadId message fileAttachments w)"
    and w': "w' = snd (createMessage e threadId message fileAttachments w)" by simp_all
  obtain rest where
    reqs: "requests w' =
       requests w @ [GetUser, SelectThread threadId uid] @
         (if thread_missing e threadId uid (threads w)
          then [InsertThread (new_chat threadId uid)] else []) @ rest"
    and rest: "\<forall>r \<in> set rest. \<not> is_InsertThread r"
    and stop: "fst (ensureThread e threadId uid ?w0) \<noteq> Inr () \<longrightarrow> rest = []"
    and ups: "res = Inr () \<longrightarrow>
       UpsertMessage (stored_row e threadId uid message fileAttachments w) \<in> set rest"
    using createMessage_requests [OF auth, of threadId message fileAttachments]
    unfolding res w' by blast
  note keys = createMessage_threads [OF auth, of threadId message fileAttachments, folded w']
  have absent: "fault e (SelectThread threadId uid) = None \<and>
      (\<forall>r \<in> set (threads w). \<not> (t_id r = threadId \<and> t_user_id r = uid))
        \<longrightarrow> thread_missing e threadId uid (threads w)"
    using thread_lookup_absent by blast
  have missing: "(\<exists>rest.
           issued w w' =
             [GetUser, SelectThread threadId uid, InsertThread (new_chat threadId uid)] @ rest \<and>
           (\<forall>r \<in> set rest. \<not> is_InsertThread r) \<and>
           (res = Inr () \<longrightarrow> (\<exists>row. UpsertMessage row \<in> set rest))) \<and>
        (case fault e (InsertThread (new_chat threadId uid)) of
           None \<Rightarrow>
             map thread_key (threads w') =
               map thread_key (threads w) @ [(threadId, ''New Chat'', uid)]
         | Some cerr \<Rightarrow>
             res = Inl (StoreError cerr) \<and> threads w' = threads w \<and> messages w' = messages w)"
    if m: "thread_missing e threadId uid (threads w)"
  proof (intro conjI)
    from reqs m have "issued w w' =
        [GetUser, SelectThread threadId uid, InsertThread (new_chat threadId uid)] @ rest"
      by (simp add: issued_def)
    with rest ups show "\<exists>rest.
           issued w w' =
             [GetUser, SelectThread threadId uid, InsertThread (new_chat threadId uid)] @ rest \<and>
           (\<forall>r \<in> set rest. \<not> is_InsertThread r) \<and>
           (res = Inr () \<longrightarrow> (\<exists>row. UpsertMessage row \<in> set rest))"
      by blast
  next
    show "case fault e (InsertThread (new_chat threadId uid)) of
           None \<Rightarrow>
             map thread_key (threads w') =
               map thread_key (threads w) @ [(threadId, ''New Chat'', uid)]
         | Some cerr \<Rightarrow>
             res = Inl (StoreError cerr) \<and> threads w' = threads w \<and> messages w' = messages w"
    proof (cases "fault e (InsertThread (new_chat threadId uid))")
      case None
      with keys m show ?thesis by simp
    next
      case (Some cerr)
      with m have "fst (ensureThread e threadId uid ?w0) = Inl (StoreError cerr)"
        by (auto simp: ensureThread_fst thread_missing_def split: sum.splits)
      from createMessage_ensure_failed [OF auth this, of message fileAttachments] Some m
      show ?thesis
        by (simp add: res w' ensureThread_threads)
    qed
  qed
  have found: "(\<forall>r \<in> set (issued w w'). \<not> is_InsertThread r) \<and>
        map thread_key (threads w') = map thread_key (threads w)"
    if f: "thread_lookup e threadId uid (threads w) = Inr existing" for existing
  proof -
    from f have nm: "\<not> thread_missing e threadId uid (threads w)"
      by (simp add: thread_missing_def)
    with reqs have "issued w w' = [GetUser, SelectThread threadId uid] @ rest"
      by (simp add: issued_def)
    with rest keys nm show ?thesis
      by (auto simp: is_InsertThread_def)
  qed
  have failed: "res = Inl (StoreError err) \<and>
        issued w w' = [GetUser, SelectThread threadId uid] \<and>
        messages w' = messages w"
    if f: "thread_lookup e threadId uid (threads w) = Inl err" "code err \<noteq> ''PGRST116''" for err
  proof -
    from f have nm: "\<not> thread_missing e threadId uid (threads w)"
      by (simp add: thread_missing_def)
    from f have en: "fst (ensureThread e threadId uid ?w0) = Inl (StoreError err)"
      by (simp add: ensureThread_fst)
    with stop have "rest = []" by simp
    with reqs nm have "issued w w' = [GetUser, SelectThread threadId uid]"
      by (simp add: issued_def)
    with createMessage_ensure_failed [OF auth en, of message fileAttachments] show ?thesis
      by (simp add: res w')
  qed
  from absent missing found failed show ?thesis by blast
qed

theorem createMessage_ensures_thread_witness:
  "map thread_key (threads (snd (createMessage env_ok ''t1'' hello None world_u1))) =
     [(''t1'', ''New Chat'', ''u1'')] \<and>
   (\<exists>rest. issued world_u1 (snd (createMessage env_ok ''t1'' hello None world_u1)) =
      [GetUser, SelectThread ''t1'' ''u1'', InsertThread (new_chat ''t1'' ''u1'')] @ rest) \<and>
   map thread_key
     (threads (snd (createMessage env_ok ''t1'' hello None (world_u1\<lparr>threads := [thread_t1]\<rparr>)))) =
     [(''t1'', ''New Chat'', ''u1'')] \<and>
   InsertThread (new_chat ''t1'' ''u1'') \<notin>
     set (issued (world_u1\<lparr>threads := [thread_t1]\<rparr>)
            (snd (createMessage env_ok ''t1'' hello None (world_u1\<lparr>threads := [thread_t1]\<rparr>)))) \<and>
   fst (createMessage (env_failing (\<lambda>r. r = SelectThread ''t1'' ''u1'') timeout_error)
          ''t1'' hello None world_u1) = Inl (StoreError timeout_error) \<and>
   messages (snd (createMessage (env_failing (\<lambda>r. r = SelectThread ''t1'' ''u1'') timeout_error)
          ''t1'' hello None world_u1)) = []"
proof -
  let ?found = "world_u1\<lparr>threads := [thread_t1]\<rparr>"
  let ?bad = "env_failing (\<lambda>r. r = SelectThread ''t1'' ''u1'') timeout_error"
  have pair: "f = (fst f, snd f)" for f :: "(error + unit) \<times> world" by simp
  have auth: "session world_u1 = Some ''u1''" "session ?found = Some ''u1''"
    by (simp_all add: world_u1_def)
  have user: "fault env_ok GetUser = None" "fault ?bad GetUser = None"
    by (simp_all add: env_ok_def env_failing_def)
  have missing: "thread_missing env_ok ''t1'' ''u1'' (threads world_u1)"
    by (simp add: thread_missing_def thread_lookup_def env_ok_def world_u1_def single_def
        not_found_def)
  have ins: "fault env_ok (InsertThread (new_chat ''t1'' ''u1'')) = None"
    by (simp add: env_ok_def)
  have found: "thread_lookup env_ok ''t1'' ''u1'' (threads ?found) = Inr thread_t1"
    by (simp add: thread_lookup_def env_ok_def thread_t1_def single_def)
  have failed: "thread_lookup ?bad ''t1'' ''u1'' (threads world_u1) = Inl timeout_error"
    "code timeout_error \<noteq> ''PGRST116''"
    by (simp_all add: thread_lookup_def env_failing_def timeout_error_def)
  note a = createMessage_ensures_thread [OF auth(1) user(1) pair [of "createMessage env_ok ''t1'' hello None world_u1"]]
  note b = createMessage_ensures_thread [OF auth(2) user(1) pair [of "createMessage env_ok ''t1'' hello None ?found"]]
  note c = createMessage_ensures_thread [OF auth(1) user(2) pair [of "createMessage ?bad ''t1'' hello None world_u1"]]
  from a missing ins have 1:
    "map thread_key (threads (snd (createMessage env_ok ''t1'' hello None world_u1))) =
       [(''t1'', ''New Chat'', ''u1'')]"
    "\<exists>rest. issued world_u1 (snd (createMessage env_ok ''t1'' hello None world_u1)) =
      [GetUser, SelectThread ''t1'' ''u1'', InsertThread (new_chat ''t1'' ''u1'')] @ rest"
    by (auto simp: world_u1_def)
  from b found have 2:
    "map thread_key (threads (snd (createMessage env_ok ''t1'' hello None ?found))) =
       [(''t1'', ''New Chat'', ''u1'')]"
    "InsertThread (new_chat ''t1'' ''u1'') \<notin>
       set (issued ?found (snd (createMessage env_ok ''t1'' hello None ?found)))"
    by (auto simp: thread_key_def thread_t1_def is_InsertThread_def)
  from c failed have 3:
    "fst (createMessage ?bad ''t1'' hello None world_u1) = Inl (StoreError timeout_error)"
    "messages (snd (createMessage ?bad ''t1'' hello None world_u1)) = []"
    by (auto simp: world_u1_def)
  from 1 2 3 show ?thesis by blast
qed

subsection \<open>The id of the stored message\<close>

lemma match_hex_groups_Cons:
  assumes "ns \<noteq> []"
  shows "match_hex_groups (n # ns) s \<longleftrightarrow>
     (\<exists>a rest. s = a @ CHR ''-'' # rest \<and> length a = n \<and> list_all is_hex_digit a \<and>
        match_hex_groups ns rest)"
proof -
  from assms obtain k ks where ns: "ns = k # ks" by (cases ns) auto
  show ?thesis
  proof
    assume "match_hex_groups (n # ns) s"
    then have m: "n < length s" "list_all is_hex_digit (take n s)" "s ! n = CHR ''-''"
      "match_hex_groups ns (drop (Suc n) s)"
      by (simp_all add: ns)
    from m(1) have "s = take n s @ s ! n # drop (Suc n) s"
      by (simp add: id_take_nth_drop)
    with m have "s = take n s @ CHR ''-'' # drop (Suc n) s \<and> length (take n s) = n \<and>
        list_all is_hex_digit (take n s) \<and> match_hex_groups ns (drop (Suc n) s)"
      by simp
    then show "\<exists>a rest. s = a @ CHR ''-'' # rest \<and> length a = n \<and> list_all is_hex_digit a \<and>
        match_hex_groups ns rest"
      by blast
  next
    assume "\<exists>a rest. s = a @ CHR ''-'' # rest \<and> length a = n \<and> list_all is_hex_digit a \<and>
        match_hex_groups ns rest"
    then show "match_hex_groups (n # ns) s"
      by (auto simp: ns nth_append)
  qed
qed

text \<open>The pattern of line 277 accepts exactly the strings of the UUID format.\<close>

lemma uuid_regex_iff: "uuid_regex s \<longleftrightarrow> is_uuid_format s"
proof -
  have "uuid_regex s \<longleftrightarrow>
    (\<exists>a r1. s = a @ CHR ''-'' # r1 \<and> length a = 8 \<and> list_all is_hex_digit a \<and>
      (\<exists>b r2. r1 = b @ CHR ''-'' # r2 \<and> length b = 4 \<and> list_all is_hex_digit b \<and>
        (\<exists>c r3. r2 = c @ CHR ''-'' # r3 \<and> length c = 4 \<and> list_all is_hex_digit c \<and>
          (\<exists>d e. r3 = d @ CHR ''-'' # e \<and> length d = 4 \<and> list_all is_hex_digit d \<and>
             length e = 12 \<and> list_all is_hex_digit e))))"
    unfolding uuid_regex_def
    by (simp only: match_hex_groups_Cons [OF list.distinct(2)] match_hex_groups.simps(2))
  also have "\<dots> \<longleftrightarrow> is_uuid_format s"
  proof
    assume "\<exists>a r1. s = a @ CHR ''-'' # r1 \<and> length a = 8 \<and> list_all is_hex_digit a \<and>
      (\<exists>b r2. r1 = b @ CHR ''-'' # r2 \<and> length b = 4 \<and> list_all is_hex_digit b \<and>
        (\<exists>c r3. r2 = c @ CHR ''-'' # r3 \<and> length c = 4 \<and> list_all is_hex_digit c \<and>
          (\<exists>d e. r3 = d @ CHR ''-'' # e \<and> length d = 4 \<and> list_all is_hex_digit d \<and>
             length e = 12 \<and> list_all is_hex_digit e)))"
    then obtain a b c d e where
      "s = a @ CHR ''-'' # b @ CHR ''-'' # c @ CHR ''-'' # d @ CHR ''-'' # e"
      "length a = 8" "length b = 4" "length c = 4" "length d = 4" "length e = 12"
      "list_all is_hex_digit a" "list_all is_hex_digit b" "list_all is_hex_digit c"
      "list_all is_hex_digit d" "list_all is_hex_digit e"
      by blast
    then have "s = a @ ''-'' @ b @ ''-'' @ c @ ''-'' @ d @ ''-'' @ e \<and>
        length a = 8 \<and> length b = 4 \<and> length c = 4 \<and> length d = 4 \<and> length e = 12 \<and>
        list_all is_hex_digit (a @ b @ c @ d @ e)"
      by simp
    then show "is_uuid_format s"
      unfolding is_uuid_format_def by blast
  next
    assume "is_uuid_format s"
    then obtain a b c d e where
      "s = a @ ''-'' @ b @ ''-'' @ c @ ''-'' @ d @ ''-'' @ e"
      "length a = 8" "length b = 4" "length c = 4" "length d = 4" "length e = 12"
      "list_all is_hex_digit (a @ b @ c @ d @ e)"
      unfolding is_uuid_format_def by blast
    then have "s = a @ CHR ''-'' # (b @ CHR ''-'' # (c @ CHR ''-'' # (d @ CHR ''-'' # e))) \<and>
      length a = 8 \<and> list_all is_hex_digit a \<and>
      (b @ CHR ''-'' # (c @ CHR ''-'' # (d @ CHR ''-'' # e)) =
          b @ CHR ''-'' # (c @ CHR ''-'' # (d @ CHR ''-'' # e)) \<and>
        length b = 4 \<and> list_all is_hex_digit b \<and>
        (c @ CHR ''-'' # (d @ CHR ''-'' # e) = c @ CHR ''-'' # (d @ CHR ''-'' # e) \<and>
          length c = 4 \<and> list_all is_hex_digit c \<and>
          (d @ CHR ''-'' # e = d @ CHR ''-'' # e \<and> length d = 4 \<and> list_all is_hex_digit d \<and>
             length e = 12 \<and> list_all is_hex_digit e)))"
      by simp
    then show "\<exists>a r1. s = a @ CHR ''-'' # r1 \<and> length a = 8 \<and> list_all is_hex_digit a \<and>
      (\<exists>b r2. r1 = b @ CHR ''-'' # r2 \<and> length b = 4 \<and> list_all is_hex_digit b \<and>
        (\<exists>c r3. r2 = c @ CHR ''-'' # r3 \<and> length c = 4 \<and> list_all is_hex_digit c \<and>
          (\<exists>d e. r3 = d @ CHR ''-'' # e \<and> length d = 4 \<and> list_all is_hex_digit d \<and>
             length e = 12 \<and> list_all is_hex_digit e)))"
      by blast
  qed
  finally show ?thesis .
qed

text \<open>
  C3. The id of the message row of a call is the id \<open>createMessage\<close> settles on: every
  upsert the call issues carries it, and when the call returns a row with it is stored.
  That id is the caller's, unchanged, when the caller's id has the UUID format, and
  otherwise (the id is absent, empty or malformed) the id \<open>uuidv4()\<close> returns next; so,
  \<open>uuidv4()\<close> returning well-formed ids, it is well-formed in every case. No error is
  raised for a missing or malformed id: with a user signed in, no request failing and no
  invalid date, the call returns whatever the id is.
\<close>

theorem createMessage_message_id:
  assumes gen: "uuid_regex (uuidv4 e (uuids w))"
    and call: "createMessage e threadId message fileAttachments w = (res, w')"
  shows
    "is_uuid_format (resolved_id e message (uuids w)) \<and>
     (\<forall>i. ui_id message = Some i \<and> is_uuid_format i \<longrightarrow> resolved_id e message (uuids w) = i) \<and>
     ((\<forall>i. ui_id message = Some i \<longrightarrow> \<not> is_uuid_format i) \<longrightarrow>
        resolved_id e message (uuids w) = uuidv4 e (uuids w)) \<and>
     (\<forall>row. UpsertMessage row \<in> set (issued w w') \<longrightarrow>
        m_id row = resolved_id e message (uuids w)) \<and>
     (res = Inr () \<longrightarrow>
        (\<exists>row \<in> set (messages w'). m_id row = resolved_id e message (uuids w)) \<and>
        (\<exists>row. UpsertMessage row \<in> set (issued w w'))) \<and>
     (session w \<noteq> None \<and> (\<forall>r. fault e r = None) \<and> ui_createdAt message \<noteq> Some InvalidDate
        \<longrightarrow> res = Inr ())"
proof -
  from call have res: "res = fst (createMessage e threadId message fileAttachments w)"
    and w': "w' = snd (createMessage e threadId message fileAttachments w)" by simp_all
  have v: "valid_message_id (Some i) \<longleftrightarrow> is_uuid_format i" for i
    using uuid_regex_length [of i] by (auto simp: valid_message_id_def uuid_regex_iff)
  have wf: "is_uuid_format (resolved_id e message (uuids w))"
    using gen by (auto simp: resolved_id_def v uuid_regex_iff split: option.splits)
  have same: "\<forall>i. ui_id message = Some i \<and> is_uuid_format i \<longrightarrow>
        resolved_id e message (uuids w) = i"
    by (auto simp: resolved_id_def v)
  have fresh: "(\<forall>i. ui_id message = Some i \<longrightarrow> \<not> is_uuid_format i) \<longrightarrow>
        resolved_id e message (uuids w) = uuidv4 e (uuids w)"
    by (auto simp: resolved_id_def v split: option.splits)
  have req: "\<forall>row. UpsertMessage row \<in> set (issued w w') \<longrightarrow>
        m_id row = resolved_id e message (uuids w)"
    using createMessage_upserts [of e threadId message fileAttachments w]
    unfolding w' by (auto simp: issued_def)
  have stored: "(\<exists>row \<in> set (messages w'). m_id row = resolved_id e message (uuids w)) \<and>
        (\<exists>row. UpsertMessage row \<in> set (issued w w'))"
    if "res = Inr ()"
  proof -
    from that have ok: "fst (createMessage e threadId message fileAttachments w) = Inr ()"
      by (simp add: res)
    then obtain uid where auth: "session w = Some uid" "fault e GetUser = None"
      and m: "messages w' =
        upsert_by_id (stored_row e threadId uid message fileAttachments w) (messages w)"
      unfolding w' by (rule createMessage_success)
    from createMessage_requests [OF auth, of threadId message fileAttachments] ok
    have "\<exists>row. UpsertMessage row \<in> set (issued w w')"
      unfolding w' by (auto simp: issued_def)
    with m upsert_by_id_mem [of "stored_row e threadId uid message fileAttachments w" "messages w"]
    show ?thesis by simp
  qed
  have nothrow: "res = Inr ()"
    if "session w \<noteq> None \<and> (\<forall>r. fault e r = None) \<and> ui_createdAt message \<noteq> Some InvalidDate"
    using that createMessage_no_faults [of w _ e message threadId fileAttachments]
    by (auto simp: res)
  from wf same fresh req stored nothrow show ?thesis by blast
qed

theorem createMessage_message_id_witness:
  "(\<exists>row \<in> set (messages (snd (createMessage env_ok ''t1'' hello None world_u1))).
      m_id row = hello_id) \<and>
   (\<exists>row \<in> set (messages (snd (createMessage env_ok ''t1''
                 (hello\<lparr>ui_id := Some ''not-a-uuid''\<rparr>) None world_u1))).
      m_id row = ''00000000-0000-4000-8000-000000000000'') \<and>
   (\<exists>row \<in> set (messages (snd (createMessage env_ok ''t1''
                 (hello\<lparr>ui_id := None\<rparr>) None world_u1))).
      m_id row = ''00000000-0000-4000-8000-000000000000'') \<and>
   is_uuid_format ''00000000-0000-4000-8000-000000000000''"
proof -
  let ?bad = "hello\<lparr>ui_id := Some ''not-a-uuid''\<rparr>"
  let ?none = "hello\<lparr>ui_id := None\<rparr>"
  have pair: "f = (fst f, snd f)" for f :: "(error + unit) \<times> world" by simp
  have gen: "uuid_regex (uuidv4 env_ok (uuids world_u1))" by code_simp
  have u: "uuidv4 env_ok (uuids world_u1) = ''00000000-0000-4000-8000-000000000000''"
    by code_simp
  have fine: "session world_u1 \<noteq> None \<and> (\<forall>r. fault env_ok r = None) \<and>
      ui_createdAt m \<noteq> Some InvalidDate" if "ui_createdAt m = None" for m
    using that by (simp add: world_u1_def env_ok_def)
  have fmt: "is_uuid_format hello_id" "\<not> is_uuid_format ''not-a-uuid''"
    unfolding uuid_regex_iff [symmetric] by code_simp+
  note a = createMessage_message_id [OF gen pair [of "createMessage env_ok ''t1'' hello None world_u1"]]
  note b = createMessage_message_id [OF gen pair [of "createMessage env_ok ''t1'' ?bad None world_u1"]]
  note c = createMessage_message_id [OF gen pair [of "createMessage env_ok ''t1'' ?none None world_u1"]]
  from a fine [of hello] fmt(1) have 1:
    "\<exists>row \<in> set (messages (snd (createMessage env_ok ''t1'' hello None world_u1))).
      m_id row = hello_id"
    by (auto simp: hello_def)
  from b fine [of ?bad] fmt(2) have 2:
    "\<exists>row \<in> set (messages (snd (createMessage env_ok ''t1'' ?bad None world_u1))).
      m_id row = ''00000000-0000-4000-8000-000000000000''"
    by (auto simp: hello_def u)
  from c fine [of ?none] have 3:
    "\<exists>row \<in> set (messages (snd (createMessage env_ok ''t1'' ?none None world_u1))).
      m_id row = ''00000000-0000-4000-8000-000000000000''"
    by (auto simp: hello_def u)
  from c have 4: "is_uuid_format ''00000000-0000-4000-8000-000000000000''"
    by (auto simp: hello_def u)
  from 1 2 3 4 show ?thesis by blast
qed

subsection \<open>File attachments of \<open>createMessage\<close>\<close>

lemma attachment_row_of_fields:
  "(a_message_id (fst (attachment_row_of e m t u a w)),
    a_thread_id (fst (attachment_row_of e m t u a w)),
    a_user_id (fst (attachment_row_of e m t u a w)),
    a_file_name (fst (attachment_row_of e m t u a w)),
    a_file_type (fst (attachment_row_of e m t u a w)),
    a_file_size (fst (attachment_row_of e m t u a w)),
    a_file_url (fst (attachment_row_of e m t u a w)),
    a_thumbnail_url (fst (attachment_row_of e m t u a w))) =
   (m, t, u, fu_fileName a, or_else (fu_fileType a) ''text/plain'', or_zero (fu_fileSize a),
    upload_url a, or_null (fu_thumbnailUrl a))"
  by (simp add: attachment_row_of_def new_uuid_def new_Date_ISO_def upload_url_def
      split: option.split)

lemma attachment_rows_fields:
  "map (\<lambda>r. (a_message_id r, a_thread_id r, a_user_id r, a_file_name r, a_file_type r,
             a_file_size r, a_file_url r, a_thumbnail_url r))
     (fst (attachment_rows e m t u fs w)) =
   map (\<lambda>a. (m, t, u, fu_fileName a, or_else (fu_fileType a) ''text/plain'',
             or_zero (fu_fileSize a), upload_url a, or_null (fu_thumbnailUrl a))) fs"
  by (induction fs arbitrary: w) (simp_all only: attachment_rows.simps case_prod_beta fst_conv
      list.map attachment_row_of_fields)

lemma upload_rows_fields:
  "map (\<lambda>r. (a_message_id r, a_thread_id r, a_user_id r, a_file_name r, a_file_type r,
             a_file_size r, a_file_url r, a_thumbnail_url r))
     (upload_rows e m t u fa w) =
   map (\<lambda>a. (m, t, u, fu_fileName a, or_else (fu_fileType a) ''text/plain'',
             or_zero (fu_fileSize a), upload_url a, or_null (fu_thumbnailUrl a)))
     (filter has_url (uploads_of fa))"
  by (simp add: upload_rows_def uploads_of_def attachmentsToInsert_def Let_def
      attachment_rows_fields split: option.split)

text \<open>
  C9. Take a call of \<open>createMessage\<close> by a signed-in user in which no request fails but,
  possibly, the insertion of the file attachments, and the date of the message is valid.
  The call builds one row for each upload that has a URL, in the order of the uploads, with
  the id the message is stored under, the thread, the user and the name, type, size, URL
  and thumbnail of the upload; an upload with neither \<open>fileUrl\<close> nor \<open>url\<close> gets no row
  and a warning with its file name. The rows are sent in one insertion, and no insertion
  is sent when there is no row. Whether or not that insertion fails, the call returns
  without an error and the message row is stored; the attachment rows are stored exactly
  when the insertion does not fail.
\<close>

theorem createMessage_attachments:
  assumes auth: "session w = Some uid"
    and others: "\<And>r. \<not> is_InsertFileAttachments r \<Longrightarrow> fault e r = None"
    and date: "ui_createdAt message \<noteq> Some InvalidDate"
    and call: "createMessage e threadId message fileAttachments w = (res, w')"
  shows "\<exists>rows.
     map (\<lambda>r. (a_message_id r, a_thread_id r, a_user_id r, a_file_name r, a_file_type r,
             a_file_size r, a_file_url r, a_thumbnail_url r)) rows =
       map (\<lambda>a. (resolved_id e message (uuids w), threadId, uid, fu_fileName a,
                  or_else (fu_fileType a) ''text/plain'', or_zero (fu_fileSize a),
                  upload_url a, or_null (fu_thumbnailUrl a)))
         (filter has_url (uploads_of fileAttachments)) \<and>
     warnings w' =
       warnings w @ map skip_warning (filter (\<lambda>a. \<not> has_url a) (uploads_of fileAttachments)) \<and>
     filter is_InsertFileAttachments (issued w w') =
       (if rows = [] then [] else [InsertFileAttachments rows]) \<and>
     file_attachments w' =
       file_attachments w @ (if fault e (InsertFileAttachments rows) = None then rows else []) \<and>
     res = Inr () \<and>
     messages w' =
       upsert_by_id (stored_row e threadId uid message fileAttachments w) (messages w) \<and>
     (\<exists>m \<in> set (messages w'). m_id m = resolved_id e message (uuids w))"
proof -
  let ?w0 = "w\<lparr>requests := requests w @ [GetUser]\<rparr>"
  let ?w1 = "snd (ensureThread e threadId uid ?w0)"
  let ?w2 = "snd (storeMessage e threadId uid message fileAttachments ?w1)"
  let ?mid = "resolved_id e message (uuids w)"
  let ?rows = "upload_rows e ?mid threadId uid fileAttachments ?w2"
  let ?w3 = "insertFileAttachments e ?mid threadId uid fileAttachments ?w2"
  note path = createMessage_rest_ok [OF auth others date]
  from call path(1) [of threadId fileAttachments] have res: "res = fst (touchThread e threadId message ?w3)"
    and w': "w' = snd (touchThread e threadId message ?w3)" by simp_all
  have proj: "map (\<lambda>r. (a_message_id r, a_thread_id r, a_user_id r, a_file_name r, a_file_type r,
             a_file_size r, a_file_url r, a_thumbnail_url r)) ?rows =
       map (\<lambda>a. (?mid, threadId, uid, fu_fileName a,
                  or_else (fu_fileType a) ''text/plain'', or_zero (fu_fileSize a),
                  upload_url a, or_null (fu_thumbnailUrl a)))
         (filter has_url (uploads_of fileAttachments))"
    by (rule upload_rows_fields)
  have warn: "warnings w' =
      warnings w @ map skip_warning (filter (\<lambda>a. \<not> has_url a) (uploads_of fileAttachments))"
    by (simp add: w' insertFileAttachments_warnings uploads_of_def)
  have reqs: "filter is_InsertFileAttachments (issued w w') =
       (if ?rows = [] then [] else [InsertFileAttachments ?rows])"
    by (simp add: w' issued_def touchThread_requests insertFileAttachments_requests
        storeMessage_requests ensureThread_requests is_InsertFileAttachments_def date)
  have atts: "file_attachments w' =
       file_attachments w @ (if fault e (InsertFileAttachments ?rows) = None then ?rows else [])"
    by (simp add: w' insertFileAttachments_file_attachments)
  have ok: "res = Inr ()"
    by (simp add: res touchThread_fst date others is_InsertFileAttachments_def)
  have msgs: "messages w' =
      upsert_by_id (stored_row e threadId uid message fileAttachments w) (messages w)"
    by (simp add: w' storeMessage_messages date path(3))
  with upsert_by_id_mem [of "stored_row e threadId uid message fileAttachments w" "messages w"]
  have msg: "\<exists>m \<in> set (messages w'). m_id m = ?mid" by simp
  from proj warn reqs atts ok msgs msg show ?thesis by blast
qed

theorem createMessage_attachments_witness:
  "fst (createMessage (env_failing is_InsertFileAttachments timeout_error) ''t1'' hello
         (Some [upload_with_url, upload_without_url]) world_u1) = Inr () \<and>
   file_attachments (snd (createMessage (env_failing is_InsertFileAttachments timeout_error)
         ''t1'' hello (Some [upload_with_url, upload_without_url]) world_u1)) = [] \<and>
   warnings (snd (createMessage (env_failing is_InsertFileAttachments timeout_error)
         ''t1'' hello (Some [upload_with_url, upload_without_url]) world_u1)) =
     [skip_warning upload_without_url] \<and>
   (\<exists>m \<in> set (messages (snd (createMessage (env_failing is_InsertFileAttachments timeout_error)
         ''t1'' hello (Some [upload_with_url, upload_without_url]) world_u1))).
      m_id m = hello_id) \<and>
   map (\<lambda>r. (a_message_id r, a_file_name r, a_file_url r))
     (file_attachments (snd (createMessage env_ok ''t1'' hello
         (Some [upload_with_url, upload_without_url]) world_u1))) =
     [(hello_id, ''a.txt'', ''https://files.example/a.txt'')]"
proof -
  let ?bad = "env_failing is_InsertFileAttachments timeout_error"
  let ?fa = "Some [upload_with_url, upload_without_url]"
  let ?w' = "snd (createMessage ?bad ''t1'' hello ?fa world_u1)"
  let ?v' = "snd (createMessage env_ok ''t1'' hello ?fa world_u1)"
  have pair: "f = (fst f, snd f)" for f :: "(error + unit) \<times> world" by simp
  have auth: "session world_u1 = Some ''u1''" by (simp add: world_u1_def)
  have date: "ui_createdAt hello \<noteq> Some InvalidDate" by (simp add: hello_def)
  have others: "\<not> is_InsertFileAttachments r \<Longrightarrow> fault ?bad r = None" for r
    by (simp add: env_failing_def)
  have others_ok: "\<not> is_InsertFileAttachments r \<Longrightarrow> fault env_ok r = None" for r
    by (simp add: env_ok_def)
  have mid: "resolved_id e hello n = hello_id" for e n
  proof -
    have "uuid_regex hello_id" by code_simp
    then show ?thesis
      using uuid_regex_length [of hello_id]
      by (auto simp: resolved_id_def valid_message_id_def hello_def)
  qed
  have urls: "filter has_url (uploads_of ?fa) = [upload_with_url]"
    "filter (\<lambda>a. \<not> has_url a) (uploads_of ?fa) = [upload_without_url]"
    by (simp_all add: uploads_of_def has_url_def truthy_def upload_with_url_def
        upload_without_url_def)
  have empty: "warnings world_u1 = []" "file_attachments world_u1 = []"
    by (simp_all add: world_u1_def)
  from createMessage_attachments [OF auth others date pair [of "createMessage ?bad ''t1'' hello ?fa world_u1"]]
  obtain rows where a:
    "map (\<lambda>r. (a_message_id r, a_thread_id r, a_user_id r, a_file_name r, a_file_type r,
             a_file_size r, a_file_url r, a_thumbnail_url r)) rows =
       map (\<lambda>a. (resolved_id ?bad hello (uuids world_u1), ''t1'', ''u1'', fu_fileName a,
                  or_else (fu_fileType a) ''text/plain'', or_zero (fu_fileSize a),
                  upload_url a, or_null (fu_thumbnailUrl a)))
         (filter has_url (uploads_of ?fa))"
    "warnings ?w' =
       warnings world_u1 @ map skip_warning (filter (\<lambda>a. \<not> has_url a) (uploads_of ?fa))"
    "file_attachments ?w' =
       file_attachments world_u1 @ (if fault ?bad (InsertFileAttachments rows) = None then rows else [])"
    "fst (createMessage ?bad ''t1'' hello ?fa world_u1) = Inr ()"
    "\<exists>m \<in> set (messages ?w'). m_id m = resolved_id ?bad hello (uuids world_u1)"
    by blast
  have 1: "file_attachments ?w' = []"
    using a(3) by (simp add: empty env_failing_def is_InsertFileAttachments_def)
  have 2: "warnings ?w' = [skip_warning upload_without_url]"
    using a(2) by (simp add: empty urls)
  have 3: "\<exists>m \<in> set (messages ?w'). m_id m = hello_id"
    using a(5) by (simp add: mid)
  from createMessage_attachments [OF auth others_ok date pair [of "createMessage env_ok ''t1'' hello ?fa world_u1"]]
  obtain rows' where b:
    "map (\<lambda>r. (a_message_id r, a_thread_id r, a_user_id r, a_file_name r, a_file_type r,
             a_file_size r, a_file_url r, a_thumbnail_url r)) rows' =
       map (\<lambda>a. (resolved_id env_ok hello (uuids world_u1), ''t1'', ''u1'', fu_fileName a,
                  or_else (fu_fileType a) ''text/plain'', or_zero (fu_fileSize a),
                  upload_url a, or_null (fu_thumbnailUrl a)))
         (filter has_url (uploads_of ?fa))"
    "file_attachments ?v' =
       file_attachments world_u1 @ (if fault env_ok (InsertFileAttachments rows') = None then rows' else [])"
    by blast
  from b(2) have fa: "file_attachments ?v' = rows'"
    by (simp add: empty env_ok_def)
  from b(1) obtain r where r: "rows' = [r]" "a_message_id r = hello_id"
      "a_file_name r = fu_fileName upload_with_url" "a_file_url r = upload_url upload_with_url"
    by (auto simp: urls mid)
  have 4: "map (\<lambda>r. (a_message_id r, a_file_name r, a_file_url r)) (file_attachments ?v') =
     [(hello_id, ''a.txt'', ''https://files.example/a.txt'')]"
  proof -
    have "fu_fileName upload_with_url = ''a.txt''"
      "upload_url upload_with_url = ''https://files.example/a.txt''"
      by (simp_all add: upload_with_url_def upload_url_def or_else_def)
    then show ?thesis by (simp add: fa r)
  qed
  from a(4) 1 2 3 4 show ?thesis by blast
qed

subsection \<open>\<open>updateMessageInDatabase\<close>: permission and verification\<close>








subsection \<open>\<open>setThreadPersona\<close>: delete, then insert\<close>

text \<open>
  C5. \<open>setThreadPersona\<close> awaits the delete of line 1052 and drops its response: the
  \<open>error\<close> of that request is never read, whereas \<open>removeThreadPersona\<close> (lines
  1104-1106) sends the same delete and raises its error. So when the delete fails and the
  insert that follows succeeds, the call succeeds and the prior row is still there: the
  thread \<open>t1\<close> of \<open>u1\<close> has persona \<open>p1\<close>, the delete times out, and after the successful
  call for persona \<open>p2\<close> the pair has two rows, \<open>p1\<close> and \<open>p2\<close>. (When the delete does
  not fail, a successful call leaves exactly the new row: lemma
  \<open>setThreadPersona_success\<close>.)
\<close>

theorem setThreadPersona_keeps_prior_row:
  "fst (setThreadPersona (env_failing (\<lambda>r. r = DeleteThreadPersona ''t1'' ''u1'') timeout_error)
          ''t1'' ''p2'' (world_u1\<lparr>threads := [thread_t1], thread_personas := [persona_p1]\<rparr>)) =
     Inr \<lparr>tp_thread_id = ''t1'', tp_persona_id = ''p2'', tp_user_id = ''u1''\<rparr> \<and>
   personas_of ''t1'' ''u1''
     (thread_personas (snd (setThreadPersona
        (env_failing (\<lambda>r. r = DeleteThreadPersona ''t1'' ''u1'') timeout_error)
        ''t1'' ''p2'' (world_u1\<lparr>threads := [thread_t1], thread_personas := [persona_p1]\<rparr>)))) =
     [persona_p1, \<lparr>tp_thread_id = ''t1'', tp_persona_id = ''p2'', tp_user_id = ''u1''\<rparr>] \<and>
   fst (setThreadPersona env_ok
          ''t1'' ''p2'' (world_u1\<lparr>threads := [thread_t1], thread_personas := [persona_p1]\<rparr>)) =
     Inr \<lparr>tp_thread_id = ''t1'', tp_persona_id = ''p2'', tp_user_id = ''u1''\<rparr> \<and>
   personas_of ''t1'' ''u1''
     (thread_personas (snd (setThreadPersona env_ok
        ''t1'' ''p2'' (world_u1\<lparr>threads := [thread_t1], thread_personas := [persona_p1]\<rparr>)))) =
     [\<lparr>tp_thread_id = ''t1'', tp_persona_id = ''p2'', tp_user_id = ''u1''\<rparr>]"
  by code_simp

subsection \<open>\<open>getUserPreferences\<close>: what is returned and what is raised\<close>

text \<open>
  A request for the preferences that fails with a statement timeout (code \<open>57014\<close>, neither
  "row not found" nor "relation does not exist"): the \<open>throw error\<close> of line 1340 is inside
  the \<open>try\<close>, so the \<open>catch\<close> of line 1342 receives the error, warns and returns \<open>null\<close>.
  The caller gets \<open>null\<close>, not the error.
\<close>

theorem getUserPreferences_swallows_store_error:
  "code timeout_error \<noteq> ''PGRST116'' \<and> code timeout_error \<noteq> ''42P01'' \<and>
   fault (env_failing (\<lambda>r. r = SelectUserPreferences ''u1'') timeout_error)
     (SelectUserPreferences ''u1'') = Some timeout_error \<and>
   fst (getUserPreferences (env_failing (\<lambda>r. r = SelectUserPreferences ''u1'') timeout_error)
          world_u1) = Inr None \<and>
   fst (getUserPreferences (env_failing (\<lambda>r. r = SelectUserPreferences ''u1'') timeout_error)
          world_u1) \<noteq> Inl (StoreError timeout_error) \<and>
   warnings (snd (getUserPreferences
       (env_failing (\<lambda>r. r = SelectUserPreferences ''u1'') timeout_error) world_u1)) =
     [clipboard_emoji @ '' Failed to query user_preferences table: '' @ msg timeout_error]"
  by (simp add: getUserPreferences_def getUserPreferences_try_def auth_getUser_eq user_of_def
      select_user_preferences_eq env_failing_def env_ok_def world_u1_def timeout_error_def
      console_warn_def error_message_def)

text \<open>
  C8, amended. \<open>getUserPreferences\<close> raises only when nobody is signed in (or the session
  cannot be read): then it raises "User not authenticated" and sends no request to the
  store. With a user signed in it never raises: it returns the user's row when the lookup
  gives one (exactly one row matches), and \<open>null\<close> in every other case, namely a lookup
  miss ("row not found", code \<open>PGRST116\<close>, without a warning), the missing table (code
  \<open>42P01\<close>, with the warning of line 1337) and any other store error (with the warning of
  line 1343, which carries the error's message). The store is left unchanged.
\<close>

theorem getUserPreferences_never_throws:
  assumes call: "getUserPreferences e w = (res, w')"
  shows
    "(session w = None \<or> fault e GetUser \<noteq> None \<longrightarrow>
        res = Inl NotAuthenticated \<and> issued w w' = [GetUser] \<and> warnings w' = warnings w) \<and>
     (\<forall>uid. session w = Some uid \<and> fault e GetUser = None \<longrightarrow>
        issued w w' = [GetUser, SelectUserPreferences uid] \<and>
        (case fault e (SelectUserPreferences uid) of
           None \<Rightarrow>
             res = (case filter (\<lambda>p. pref_user_id p = uid) (user_preferences w) of
                      [row] \<Rightarrow> Inr (Some row)
                    | _ \<Rightarrow> Inr None) \<and>
             warnings w' = warnings w
         | Some err \<Rightarrow>
             res = Inr None \<and>
             warnings w' = warnings w @
               (if code err = ''PGRST116'' then []
                else if code err = ''42P01'' then
                  [clipboard_emoji @
                   '' user_preferences table does not exist yet, falling back to localStorage'']
                else [clipboard_emoji @ '' Failed to query user_preferences table: '' @ msg err]))) \<and>
     w' = w\<lparr>requests := requests w', warnings := warnings w'\<rparr>"
proof -
  from call have res: "res = fst (getUserPreferences e w)"
    and w': "w' = snd (getUserPreferences e w)" by simp_all
  have anon: "res = Inl NotAuthenticated \<and> issued w w' = [GetUser] \<and> warnings w' = warnings w \<and>
      w' = w\<lparr>requests := requests w', warnings := warnings w'\<rparr>"
    if "session w = None \<or> fault e GetUser \<noteq> None"
    using that unfolding res w'
    by (auto simp: getUserPreferences_def auth_getUser_eq user_of_def issued_def
        split: option.splits)
  have user: "issued w w' = [GetUser, SelectUserPreferences uid] \<and>
        (case fault e (SelectUserPreferences uid) of
           None \<Rightarrow>
             res = (case filter (\<lambda>p. pref_user_id p = uid) (user_preferences w) of
                      [row] \<Rightarrow> Inr (Some row)
                    | _ \<Rightarrow> Inr None) \<and>
             warnings w' = warnings w
         | Some err \<Rightarrow>
             res = Inr None \<and>
             warnings w' = warnings w @
               (if code err = ''PGRST116'' then []
                else if code err = ''42P01'' then
                  [clipboard_emoji @
                   '' user_preferences table does not exist yet, falling back to localStorage'']
                else [clipboard_emoji @ '' Failed to query user_preferences table: '' @ msg err])) \<and>
        w' = w\<lparr>requests := requests w', warnings := warnings w'\<rparr>"
    if u: "session w = Some uid \<and> fault e GetUser = None" for uid
  proof (cases "fault e (SelectUserPreferences uid)")
    case None
    with u show ?thesis
      unfolding res w'
      by (simp add: getUserPreferences_def getUserPreferences_try_def auth_getUser_eq
          user_of_def select_user_preferences_eq single_def not_found_def issued_def
          split: list.split)
  next
    case (Some err)
    with u show ?thesis
      unfolding res w'
      by (simp add: getUserPreferences_def getUserPreferences_try_def auth_getUser_eq
          user_of_def select_user_preferences_eq issued_def console_warn_def
          error_message_def)
  qed
  have frame: "w' = w\<lparr>requests := requests w', warnings := warnings w'\<rparr>"
  proof (cases "session w = None \<or> fault e GetUser \<noteq> None")
    case True
    then show ?thesis using anon by blast
  next
    case False
    then obtain uid where "session w = Some uid \<and> fault e GetUser = None" by auto
    then show ?thesis using user by blast
  qed
  from anon user frame show ?thesis by blast
qed

theorem getUserPreferences_never_throws_witness:
  "fst (getUserPreferences env_ok world_anonymous) = Inl NotAuthenticated \<and>
   fst (getUserPreferences env_ok world_u1) = Inr None \<and>
   fst (getUserPreferences env_ok (world_u1\<lparr>user_preferences := [preferences_u1]\<rparr>)) =
     Inr (Some preferences_u1) \<and>
   fst (getUserPreferences
          (env_failing (\<lambda>r. r = SelectUserPreferences ''u1'') missing_relation) world_u1) =
     Inr None \<and>
   warnings (snd (getUserPreferences
          (env_failing (\<lambda>r. r = SelectUserPreferences ''u1'') missing_relation) world_u1)) =
     [clipboard_emoji @
      '' user_preferences table does not exist yet, falling back to localStorage'']"
proof -
  let ?w = "world_u1\<lparr>user_preferences := [preferences_u1]\<rparr>"
  let ?bad = "env_failing (\<lambda>r. r = SelectUserPreferences ''u1'') missing_relation"
  have pair: "f = (fst f, snd f)" for f :: "(error + preferences_row option) \<times> world" by simp
  note a = getUserPreferences_never_throws [OF pair [of "getUserPreferences env_ok world_anonymous"]]
  note b = getUserPreferences_never_throws [OF pair [of "getUserPreferences env_ok world_u1"]]
  note c = getUserPreferences_never_throws [OF pair [of "getUserPreferences env_ok ?w"]]
  note d = getUserPreferences_never_throws [OF pair [of "getUserPreferences ?bad world_u1"]]
  have 1: "fst (getUserPreferences env_ok world_anonymous) = Inl NotAuthenticated"
    using a by (simp add: world_anonymous_def world_u1_def)
  have 2: "fst (getUserPreferences env_ok world_u1) = Inr None"
    using b by (simp add: world_u1_def env_ok_def)
  have 3: "fst (getUserPreferences env_ok ?w) = Inr (Some preferences_u1)"
    using c by (simp add: world_u1_def env_ok_def preferences_u1_def)
  have 4: "fst (getUserPreferences ?bad world_u1) = Inr None \<and>
      warnings (snd (getUserPreferences ?bad world_u1)) =
        [clipboard_emoji @
         '' user_preferences table does not exist yet, falling back to localStorage'']"
    using d by (simp add: world_u1_def env_ok_def env_failing_def missing_relation_def)
  from 1 2 3 4 show ?thesis by blast
qed

subsection \<open>\<open>isPinned\<close>\<close>

lemma select_pinned_message_rows:
  "fst (select_pinned_message e uid threadId messageId w) =
     (case fault e (SelectPinnedMessage uid threadId messageId) of
        Some err \<Rightarrow> Inl err
      | None \<Rightarrow> single (pinned_rows uid threadId messageId (pinned_messages w)))"
proof -
  have "filter (\<lambda>p. pin_message_id p = messageId)
          (filter (\<lambda>p. pin_thread_id p = threadId)
             (filter (\<lambda>p. pin_user_id p = uid) ps)) =
        pinned_rows uid threadId messageId ps" for ps
    by (induction ps) (simp_all add: pinned_rows_def)
  then show ?thesis by (simp add: select_pinned_message_eq split: option.split)
qed

lemma single_cases:
  "(\<exists>r. single rows = Inr r \<and> length rows = 1) \<or> (single rows = Inl not_found \<and> length rows \<noteq> 1)"
  by (cases rows rule: list.exhaust [case_product list.exhaust])
    (auto simp: single_def split: list.splits)

text \<open>
  C10. \<open>isPinned\<close> reads the session and, with a user signed in, asks the store for the one
  pinned-message row of that user, thread and message; it changes nothing in the store.
  With nobody signed in (or the session not readable) it returns \<open>false\<close>, raises nothing
  and sends no request to the store. With a user signed in it returns \<open>true\<close> exactly when
  the lookup gives a row, that is when exactly one row matches; when no row matches, the
  lookup's "not found" error (code \<open>PGRST116\<close>) is absorbed and the result is \<open>false\<close>.
  Only a lookup error with another code is raised, unchanged.
\<close>

theorem isPinned_absorbs:
  assumes call: "isPinned e threadId messageId w = (res, w')"
  shows
    "(session w = None \<or> fault e GetUser \<noteq> None \<longrightarrow>
        res = Inr False \<and> issued w w' = [GetUser]) \<and>
     (\<forall>uid. session w = Some uid \<and> fault e GetUser = None \<longrightarrow>
        issued w w' = [GetUser, SelectPinnedMessage uid threadId messageId] \<and>
        (case fault e (SelectPinnedMessage uid threadId messageId) of
           None \<Rightarrow>
             res = Inr (length (pinned_rows uid threadId messageId (pinned_messages w)) = 1)
         | Some err \<Rightarrow>
             res = (if code err = ''PGRST116'' then Inr False else Inl (StoreError err))) \<and>
        (pinned_rows uid threadId messageId (pinned_messages w) = [] \<and>
         (\<forall>err. fault e (SelectPinnedMessage uid threadId messageId) = Some err \<longrightarrow>
            code err = ''PGRST116'')
           \<longrightarrow> res = Inr False)) \<and>
     w' = w\<lparr>requests := requests w'\<rparr>"
proof -
  let ?w0 = "w\<lparr>requests := requests w @ [GetUser]\<rparr>"
  have anon: "res = Inr False \<and> issued w w' = [GetUser] \<and> w' = w\<lparr>requests := requests w'\<rparr>"
    if "session w = None \<or> fault e GetUser \<noteq> None"
    using that call
    by (auto simp: isPinned_def auth_getUser_eq user_of_def issued_def split: option.splits)
  have user: "issued w w' = [GetUser, SelectPinnedMessage uid threadId messageId] \<and>
        (case fault e (SelectPinnedMessage uid threadId messageId) of
           None \<Rightarrow>
             res = Inr (length (pinned_rows uid threadId messageId (pinned_messages w)) = 1)
         | Some err \<Rightarrow>
             res = (if code err = ''PGRST116'' then Inr False else Inl (StoreError err))) \<and>
        w' = w\<lparr>requests := requests w'\<rparr>"
    if u: "session w = Some uid \<and> fault e GetUser = None" for uid
  proof -
    let ?sel = "select_pinned_message e uid threadId messageId ?w0"
    let ?w1 = "?w0\<lparr>requests := requests ?w0 @ [SelectPinnedMessage uid threadId messageId]\<rparr>"
    have snd_sel: "snd ?sel = ?w1" by (simp add: select_pinned_message_eq)
    have fst_sel: "fst ?sel =
        (case fault e (SelectPinnedMessage uid threadId messageId) of
           Some err \<Rightarrow> Inl err
         | None \<Rightarrow> single (pinned_rows uid threadId messageId (pinned_messages w)))"
      by (simp add: select_pinned_message_rows split: option.split)
    from u have unf: "isPinned e threadId messageId w =
        (case fst ?sel of
           Inl err \<Rightarrow> if code err \<noteq> ''PGRST116'' then (Inl (StoreError err), ?w1) else (Inr False, ?w1)
         | Inr data \<Rightarrow> (Inr True, ?w1))"
      unfolding isPinned_def auth_getUser_eq
      by (simp add: user_of_def case_prod_beta snd_sel split: sum.split)
    have w': "w' = ?w1"
      using call unfolding unf by (auto split: sum.splits if_splits)
    have res: "res = (case fst ?sel of
           Inl err \<Rightarrow> if code err \<noteq> ''PGRST116'' then Inl (StoreError err) else Inr False
         | Inr data \<Rightarrow> Inr True)"
      using call unfolding unf by (auto split: sum.splits if_splits)
    have iss: "issued w w' = [GetUser, SelectPinnedMessage uid threadId messageId]"
      by (simp add: w' issued_def)
    have frame: "w' = w\<lparr>requests := requests w'\<rparr>" by (simp add: w')
    have val: "(case fault e (SelectPinnedMessage uid threadId messageId) of
           None \<Rightarrow>
             res = Inr (length (pinned_rows uid threadId messageId (pinned_messages w)) = 1)
         | Some err \<Rightarrow>
             res = (if code err = ''PGRST116'' then Inr False else Inl (StoreError err)))"
    proof (cases "fault e (SelectPinnedMessage uid threadId messageId)")
      case None
      with single_cases [of "pinned_rows uid threadId messageId (pinned_messages w)"]
      show ?thesis
        by (auto simp: res fst_sel not_found_def)
    next
      case (Some err)
      then show ?thesis by (simp add: res fst_sel)
    qed
    from iss val frame show ?thesis by blast
  qed
  have none: "res = Inr False"
    if u: "session w = Some uid \<and> fault e GetUser = None"
      and n: "pinned_rows uid threadId messageId (pinned_messages w) = [] \<and>
         (\<forall>err. fault e (SelectPinnedMessage uid threadId messageId) = Some err \<longrightarrow>
            code err = ''PGRST116'')" for uid
    using user [OF u] n by (auto split: option.splits)
  have frame: "w' = w\<lparr>requests := requests w'\<rparr>"
  proof (cases "session w = None \<or> fault e GetUser \<noteq> None")
    case True
    then show ?thesis using anon by blast
  next
    case False
    then obtain uid where "session w = Some uid \<and> fault e GetUser = None" by auto
    then show ?thesis using user by blast
  qed
  from anon user none frame show ?thesis by blast
qed

theorem isPinned_absorbs_witness:
  "fst (isPinned env_ok ''t1'' hello_id world_anonymous) = Inr False \<and>
   fst (isPinned env_ok ''t1'' hello_id world_u1) = Inr False \<and>
   fst (isPinned env_ok ''t1'' hello_id
     (world_u1\<lparr>pinned_messages :=
        [\<lparr>pin_id = ''k1'', pin_user_id = ''u1'', pin_thread_id = ''t1'',
          pin_message_id = hello_id\<rparr>]\<rparr>)) = Inr True \<and>
   fst (isPinned (env_failing (\<lambda>r. r = SelectPinnedMessage ''u1'' ''t1'' hello_id) timeout_error)
     ''t1'' hello_id world_u1) = Inl (StoreError timeout_error)"
proof -
  let ?pin = "\<lparr>pin_id = ''k1'', pin_user_id = ''u1'', pin_thread_id = ''t1'',
          pin_message_id = hello_id\<rparr>"
  let ?w = "world_u1\<lparr>pinned_messages := [?pin]\<rparr>"
  let ?bad = "env_failing (\<lambda>r. r = SelectPinnedMessage ''u1'' ''t1'' hello_id) timeout_error"
  have pair: "f = (fst f, snd f)" for f :: "(error + bool) \<times> world" by simp
  note a = isPinned_absorbs [OF pair [of "isPinned env_ok ''t1'' hello_id world_anonymous"]]
  note b = isPinned_absorbs [OF pair [of "isPinned env_ok ''t1'' hello_id world_u1"]]
  note c = isPinned_absorbs [OF pair [of "isPinned env_ok ''t1'' hello_id ?w"]]
  note d = isPinned_absorbs [OF pair [of "isPinned ?bad ''t1'' hello_id world_u1"]]
  have 1: "fst (isPinned env_ok ''t1'' hello_id world_anonymous) = Inr False"
    using a by (simp add: world_anonymous_def world_u1_def)
  have 2: "fst (isPinned env_ok ''t1'' hello_id world_u1) = Inr False"
    using b by (simp add: world_u1_def env_ok_def pinned_rows_def)
  have 3: "fst (isPinned env_ok ''t1'' hello_id ?w) = Inr True"
    using c by (simp add: world_u1_def env_ok_def pinned_rows_def)
  have 4: "fst (isPinned ?bad ''t1'' hello_id world_u1) = Inl (StoreError timeout_error)"
    using d by (simp add: world_u1_def env_ok_def env_failing_def timeout_error_def)
  from 1 2 3 4 show ?thesis by blast
qed

end
